theory Spec2Isabelle
  imports Complex_Main "HOL-Library.AList"
begin

section \<open>Shared vocabulary\<close>

text \<open>
  A point in time is a number of microseconds since the epoch, the resolution of the
  datetime library the program uses. The process runs with \<^verbatim>\<open>TZ=UTC\<close>, so the
  units below all have a fixed length.
\<close>

type_synonym time = int

text \<open>The exceptions that can cross the functions modelled here.\<close>

datatype exn = KeyError | TypeError | AttributeError | ValueError | RequestException

text \<open>\<^verbatim>\<open>counter.labels(l).inc()\<close>: the child counter with label \<open>l\<close> grows by one.\<close>

definition counter_inc :: "('l \<Rightarrow> nat) \<Rightarrow> 'l \<Rightarrow> ('l \<Rightarrow> nat)" where
  "counter_inc counter l = counter(l := Suc (counter l))"

section \<open>ExpiringCache\<close>

text \<open>
  \<^verbatim>\<open>age_params\<close> is the keyword dictionary handed to \<^verbatim>\<open>pendulum.now().add(**age_params)\<close>.
  The fixed-length units are modelled (the forecast cache uses \<^verbatim>\<open>{"minutes": 5}\<close>);
  the calendar units years and months are left out.
\<close>

record age_params =
  weeks :: int
  days :: int
  hours :: int
  minutes :: int
  seconds :: int
  microseconds :: int

definition pendulum_add :: "time \<Rightarrow> age_params \<Rightarrow> time" where
  "pendulum_add t p =
     t + (((((weeks p * 7 + days p) * 24 + hours p) * 60 + minutes p) * 60 + seconds p) * 1000000
          + microseconds p)"

text \<open>The dictionary stored per key: \<^verbatim>\<open>{"validity": ..., "value": ...}\<close>.\<close>

record 'v entry =
  validity :: time
  value' :: 'v

text \<open>
  The \<^verbatim>\<open>OrderedDict\<close> is an association list with distinct keys in iteration order:
  the head of the list is the first item, the last element is the item
  \<^verbatim>\<open>popitem(last=True)\<close> removes. The four counters are attributes of the cache
  object, labelled by the cache name.
\<close>

record ('k, 'v) ExpiringCache =
  entries :: "('k \<times> 'v entry) list"
  cache_name :: string
  age_params :: age_params
  max_size :: int
  metric_cache_write :: "string \<Rightarrow> nat"
  metric_cache_get :: "string \<times> string \<Rightarrow> nat"
  metric_cache_expirations :: "string \<Rightarrow> nat"
  metric_cache_overflow :: "string \<Rightarrow> nat"

definition ExpiringCache_init :: "string \<Rightarrow> int \<Rightarrow> age_params \<Rightarrow> ('k, 'v) ExpiringCache" where
  "ExpiringCache_init name msize params =
     \<lparr>entries = [], cache_name = name, age_params = params, max_size = msize,
      metric_cache_write = (\<lambda>_. 0), metric_cache_get = (\<lambda>_. 0),
      metric_cache_expirations = (\<lambda>_. 0), metric_cache_overflow = (\<lambda>_. 0)\<rparr>"

text \<open>\<^verbatim>\<open>OrderedDict.popitem(last=True)\<close>: raises \<^verbatim>\<open>KeyError\<close> on an empty dictionary.\<close>

definition popitem :: "('k \<times> 'a) list \<Rightarrow> exn + ('k \<times> 'a) list" where
  "popitem es = (if es = [] then Inl KeyError else Inr (butlast es))"

text \<open>
  \<^verbatim>\<open>d[key] = x\<close>: an existing key keeps its position, a new key goes to the end.
\<close>

definition setitem :: "'k \<Rightarrow> 'a \<Rightarrow> ('k \<times> 'a) list \<Rightarrow> ('k \<times> 'a) list" where
  "setitem key x es = AList.update key x es"

text \<open>\<^verbatim>\<open>del d[key]\<close> for a key that is present.\<close>

definition delitem :: "'k \<Rightarrow> ('k \<times> 'a) list \<Rightarrow> ('k \<times> 'a) list" where
  "delitem key es = AList.delete key es"

text \<open>\<^verbatim>\<open>OrderedDict.move_to_end(key, last=False)\<close>: the item becomes the first one.\<close>

definition move_to_end_first :: "'k \<Rightarrow> ('k \<times> 'a) list \<Rightarrow> exn + ('k \<times> 'a) list" where
  "move_to_end_first key es =
     (case map_of es key of
        None \<Rightarrow> Inl KeyError
      | Some x \<Rightarrow> Inr ((key, x) # AList.delete key es))"

text \<open>
  \<^verbatim>\<open>ExpiringCache.get\<close>. \<open>now\<close> is what \<^verbatim>\<open>pendulum.now()\<close> returns when the
  comparison is reached.
\<close>

definition ExpiringCache_get ::
  "time \<Rightarrow> 'k \<Rightarrow> ('k, 'v) ExpiringCache \<Rightarrow> 'v option \<times> ('k, 'v) ExpiringCache" where
  "ExpiringCache_get now key c =
     (case map_of (entries c) key of
        None \<Rightarrow>
          (None, c\<lparr>metric_cache_get := counter_inc (metric_cache_get c) (cache_name c, ''miss'')\<rparr>)
      | Some record \<Rightarrow>
          if validity record < now then
            (None, c\<lparr>metric_cache_get := counter_inc (metric_cache_get c) (cache_name c, ''miss''),
                     metric_cache_expirations := counter_inc (metric_cache_expirations c) (cache_name c),
                     entries := delitem key (entries c)\<rparr>)
          else
            (Some (value' record),
             c\<lparr>metric_cache_get := counter_inc (metric_cache_get c) (cache_name c, ''hit'')\<rparr>))"

text \<open>
  \<^verbatim>\<open>ExpiringCache.insert\<close>. The overflow counter is bumped before \<^verbatim>\<open>popitem\<close>
  runs, so it stays bumped when \<^verbatim>\<open>popitem\<close> raises.
\<close>

definition insert_store ::
  "time \<Rightarrow> 'k \<Rightarrow> 'v \<Rightarrow> ('k, 'v) ExpiringCache \<Rightarrow> (exn + unit) \<times> ('k, 'v) ExpiringCache" where
  "insert_store now key v c =
     (let es = setitem key \<lparr>validity = pendulum_add now (age_params c), value' = v\<rparr> (entries c)
      in case move_to_end_first key es of
           Inl e \<Rightarrow> (Inl e, c\<lparr>entries := es\<rparr>)
         | Inr es' \<Rightarrow>
             (Inr (), c\<lparr>entries := es',
                        metric_cache_write := counter_inc (metric_cache_write c) (cache_name c)\<rparr>))"

definition ExpiringCache_insert ::
  "time \<Rightarrow> 'k \<Rightarrow> 'v \<Rightarrow> ('k, 'v) ExpiringCache \<Rightarrow> (exn + unit) \<times> ('k, 'v) ExpiringCache" where
  "ExpiringCache_insert now key v c =
     (if max_size c \<le> int (length (entries c)) then
        (let c1 = c\<lparr>metric_cache_overflow := counter_inc (metric_cache_overflow c) (cache_name c)\<rparr>
         in case popitem (entries c1) of
              Inl e \<Rightarrow> (Inl e, c1)
            | Inr es \<Rightarrow> insert_store now key v (c1\<lparr>entries := es\<rparr>))
      else insert_store now key v c)"

text \<open>
  The forecast cache of the module: \<^verbatim>\<open>ExpiringCache(cache_name="forecasts",
  age_params={"minutes": 5}, max_size=1024)\<close>, as constructed.
\<close>

definition five_minutes :: age_params where
  "five_minutes = \<lparr>weeks = 0, days = 0, hours = 0, minutes = 5, seconds = 0, microseconds = 0\<rparr>"

definition weather_cache_init :: "('k, 'v) ExpiringCache" where
  "weather_cache_init = ExpiringCache_init ''forecasts'' 1024 five_minutes"

subsection \<open>Histories of cache calls\<close>

text \<open>
  A caller's history is a list of calls, each with the clock reading it sees. A call
  that raises leaves the cache as the exception found it, and the history goes on.
\<close>

datatype ('k, 'v) cache_op = Get time 'k | Insert time 'k 'v

fun apply_op :: "('k, 'v) cache_op \<Rightarrow> ('k, 'v) ExpiringCache \<Rightarrow> ('k, 'v) ExpiringCache" where
  "apply_op (Get now key) c = snd (ExpiringCache_get now key c)"
| "apply_op (Insert now key v) c = snd (ExpiringCache_insert now key v c)"

definition run_ops :: "('k, 'v) cache_op list \<Rightarrow> ('k, 'v) ExpiringCache \<Rightarrow> ('k, 'v) ExpiringCache" where
  "run_ops ops c = foldl (\<lambda>c' x. apply_op x c') c ops"

definition insert_ops :: "(time \<times> 'k \<times> 'v) list \<Rightarrow> ('k, 'v) cache_op list" where
  "insert_ops xs = map (\<lambda>(now, key, v). Insert now key v) xs"

text \<open>The size bound, as it holds between calls: an empty cache, or one within its bound.\<close>

definition bounded :: "('k, 'v) ExpiringCache \<Rightarrow> bool" where
  "bounded c \<longleftrightarrow> entries c = [] \<or> int (length (entries c)) \<le> max_size c"

section \<open>JSON documents and the Python operations applied to them\<close>

text \<open>
  What \<^verbatim>\<open>response.json()\<close> returns. Numbers are real numbers: Python's floats
  are idealised, rounding is not modelled. An object is an association list with
  distinct keys in document order.
\<close>

datatype json =
    JNull
  | JBool bool
  | JNum real
  | JStr string
  | JArr "json list"
  | JObj "(string \<times> json) list"

text \<open>\<^verbatim>\<open>obj[key]\<close> with a string key: only a dictionary can be subscripted by a string.\<close>

fun py_getitem :: "json \<Rightarrow> string \<Rightarrow> exn + json" where
  "py_getitem (JObj kvs) k = (case map_of kvs k of None \<Rightarrow> Inl KeyError | Some v \<Rightarrow> Inr v)"
| "py_getitem _ k = Inl TypeError"

text \<open>\<^verbatim>\<open>obj.get(key)\<close>: only a dictionary has the method; a missing key gives \<^verbatim>\<open>None\<close>.\<close>

fun py_get :: "json \<Rightarrow> string \<Rightarrow> exn + json" where
  "py_get (JObj kvs) k = Inr (case map_of kvs k of None \<Rightarrow> JNull | Some v \<Rightarrow> v)"
| "py_get _ k = Inl AttributeError"

text \<open>
  \<^verbatim>\<open>for report in obj\<close>: a list yields its elements, a dictionary its keys, a string
  its characters; nothing else can be iterated.
\<close>

fun py_iter :: "json \<Rightarrow> exn + json list" where
  "py_iter (JArr xs) = Inr xs"
| "py_iter (JObj kvs) = Inr (map (\<lambda>kv. JStr (fst kv)) kvs)"
| "py_iter (JStr s) = Inr (map (\<lambda>ch. JStr [ch]) s)"
| "py_iter _ = Inl TypeError"

text \<open>\<^verbatim>\<open>x / d\<close> for a numeric literal \<open>d\<close>: defined on numbers and booleans.\<close>

fun py_truediv :: "json \<Rightarrow> real \<Rightarrow> exn + json" where
  "py_truediv (JNum r) d = Inr (JNum (r / d))"
| "py_truediv (JBool b) d = Inr (JNum (of_bool b / d))"
| "py_truediv _ d = Inl TypeError"

text \<open>
  Two library functions are parameters of the model:
  \<open>pendulum_parse_end s\<close> is \<^verbatim>\<open>pendulum.parse(s).end\<close> (an exception when the
  text does not parse, or parses to something that is no interval), and
  \<open>float_of_str s\<close> is \<^verbatim>\<open>float(s)\<close> on a string (\<open>None\<close> when it raises).
\<close>

record pylib =
  pendulum_parse_end :: "string \<Rightarrow> exn + time"
  float_of_str :: "string \<Rightarrow> real option"

text \<open>\<^verbatim>\<open>float(x)\<close>, which \<^verbatim>\<open>Gauge.set\<close> applies to its argument.\<close>

fun py_float :: "pylib \<Rightarrow> json \<Rightarrow> exn + real" where
  "py_float lib (JNum r) = Inr r"
| "py_float lib (JBool b) = Inr (of_bool b)"
| "py_float lib (JStr s) = (case float_of_str lib s of None \<Rightarrow> Inl ValueError | Some r \<Rightarrow> Inr r)"
| "py_float lib _ = Inl TypeError"

section \<open>The named tuples\<close>

text \<open>
  Fields carry the name of the variable the source reads them through
  (\<^verbatim>\<open>measure.key\<close>, \<^verbatim>\<open>unit.name\<close>, \<^verbatim>\<open>location.x\<close>). The route handler fills a
  \<^verbatim>\<open>LatLong\<close> with the two query-string values, which are strings. The fields of a
  \<^verbatim>\<open>GridpointLocation\<close> hold whatever JSON values the points document had; the
  annotations (a string and two integers) are not enforced, and the model compares
  locations structurally.
\<close>

record LatLong =
  latitude :: string
  longitude :: string

record Measure =
  measure_key :: string
  measure_name :: string
  measure_unit :: string

record UnitConversion =
  unit_name :: string
  unit_convert :: "json \<Rightarrow> exn + json"

record GridpointLocation =
  location_wfo :: json
  location_x :: json
  location_y :: json

section \<open>The remote API\<close>

text \<open>
  \<^verbatim>\<open>requests.get(url, headers=...)\<close> either raises (no response) or returns a response
  with a status code, whatever that code is; \<^verbatim>\<open>.json()\<close> then raises when the body
  is no JSON document (\<open>None\<close> below). A request is the URL's variable part.
\<close>

datatype request = Points LatLong | Gridpoints GridpointLocation

datatype http_outcome = NoResponse | Response nat "json option"

fun requests_get_json :: "http_outcome \<Rightarrow> exn + json" where
  "requests_get_json NoResponse = Inl RequestException"
| "requests_get_json (Response status None) = Inl ValueError"
| "requests_get_json (Response status (Some document)) = Inr document"

section \<open>Module state\<close>

text \<open>
  A report is the \<^verbatim>\<open>CollectorRegistry\<close> a request builds: its gauges, in the order
  they were registered. The module-level counters, the forecast cache, the table of the
  \<^verbatim>\<open>lru_cache\<close> decorator (most recently used first) and the requests sent so far
  (newest first) make up the state. The label of \<^verbatim>\<open>FORECAST_MISMATCHED_UNIT\<close> is kept
  as the JSON value handed to \<^verbatim>\<open>labels\<close>, which the client library turns into text.
  The two histograms only time the calls and are left out.
\<close>

type_synonym registry = "(string \<times> real) list"

record globals =
  GRIDPOINT_LOOKUP_FAILURES :: nat
  UNIT_CONVERSION_FAILURE :: "string \<Rightarrow> nat"
  FORECAST_LOOKUP_FAILURES :: nat
  FORECAST_MISMATCHED_UNIT :: "string \<times> json \<Rightarrow> nat"
  FETCH_CURRENT_VALUE_FAILURE :: "string \<Rightarrow> nat"
  FORECAST_PROCESSING_FAILURES :: nat
  weather_cache :: "(GridpointLocation, registry) ExpiringCache"
  lru :: "(LatLong \<times> GridpointLocation option) list"
  sent :: "request list"

definition globals_init :: globals where
  "globals_init =
     \<lparr>GRIDPOINT_LOOKUP_FAILURES = 0, UNIT_CONVERSION_FAILURE = (\<lambda>_. 0),
      FORECAST_LOOKUP_FAILURES = 0, FORECAST_MISMATCHED_UNIT = (\<lambda>_. 0),
      FETCH_CURRENT_VALUE_FAILURE = (\<lambda>_. 0), FORECAST_PROCESSING_FAILURES = 0,
      weather_cache = weather_cache_init, lru = [], sent = []\<rparr>"

section \<open>get_gridpoint_location\<close>

text \<open>
  The decorated function body. The first \<^verbatim>\<open>count_exceptions()\<close> counts every
  exception of the fetch and lets it pass; the second counts only \<^verbatim>\<open>KeyError\<close>,
  which the \<^verbatim>\<open>except\<close> clause turns into \<^verbatim>\<open>None\<close>.
\<close>

definition gridpoint_fields :: "json \<Rightarrow> exn + GridpointLocation" where
  "gridpoint_fields data =
     (case py_getitem data ''properties'' of Inl e \<Rightarrow> Inl e | Inr p1 \<Rightarrow>
      case py_getitem p1 ''cwa'' of Inl e \<Rightarrow> Inl e | Inr cwa \<Rightarrow>
      case py_getitem data ''properties'' of Inl e \<Rightarrow> Inl e | Inr p2 \<Rightarrow>
      case py_getitem p2 ''gridX'' of Inl e \<Rightarrow> Inl e | Inr gx \<Rightarrow>
      case py_getitem data ''properties'' of Inl e \<Rightarrow> Inl e | Inr p3 \<Rightarrow>
      case py_getitem p3 ''gridY'' of Inl e \<Rightarrow> Inl e | Inr gy \<Rightarrow>
        Inr \<lparr>location_wfo = cwa, location_x = gx, location_y = gy\<rparr>)"

definition get_gridpoint_location_wrapped ::
  "http_outcome \<Rightarrow> LatLong \<Rightarrow> globals \<Rightarrow> (exn + GridpointLocation option) \<times> globals" where
  "get_gridpoint_location_wrapped outcome latlong g =
     (let g1 = g\<lparr>sent := Points latlong # sent g\<rparr> in
      case requests_get_json outcome of
        Inl e \<Rightarrow> (Inl e, g1\<lparr>GRIDPOINT_LOOKUP_FAILURES := Suc (GRIDPOINT_LOOKUP_FAILURES g1)\<rparr>)
      | Inr data \<Rightarrow>
          (case gridpoint_fields data of
             Inr location \<Rightarrow> (Inr (Some location), g1)
           | Inl e \<Rightarrow>
               if e = KeyError
               then (Inr None, g1\<lparr>GRIDPOINT_LOOKUP_FAILURES := Suc (GRIDPOINT_LOOKUP_FAILURES g1)\<rparr>)
               else (Inl e, g1)))"

text \<open>
  \<^verbatim>\<open>@lru_cache(maxsize=65536)\<close>: a hit returns the stored result without running the
  body and makes the key the most recently used; a miss runs the body, stores what it
  returns (whatever the value, \<^verbatim>\<open>None\<close> included) and drops the least recently used
  key beyond the size; an exception of the body passes through and nothing is stored.
  \<open>outcome\<close> is what the remote API answers if it is asked.
\<close>

definition get_gridpoint_location ::
  "http_outcome \<Rightarrow> LatLong \<Rightarrow> globals \<Rightarrow> (exn + GridpointLocation option) \<times> globals" where
  "get_gridpoint_location outcome latlong g =
     (case map_of (lru g) latlong of
        Some result \<Rightarrow> (Inr result, g\<lparr>lru := (latlong, result) # AList.delete latlong (lru g)\<rparr>)
      | None \<Rightarrow>
          (case get_gridpoint_location_wrapped outcome latlong g of
             (Inl e, g') \<Rightarrow> (Inl e, g')
           | (Inr result, g') \<Rightarrow> (Inr result, g'\<lparr>lru := take 65536 ((latlong, result) # lru g')\<rparr>)))"

section \<open>convert_unit\<close>

definition prom_units :: "(string \<times> UnitConversion) list" where
  "prom_units =
     [(''degC'', \<lparr>unit_name = ''celsius'', unit_convert = (\<lambda>x. Inr x)\<rparr>),
      (''percent'', \<lparr>unit_name = ''ratio'', unit_convert = (\<lambda>x. py_truediv x 100)\<rparr>),
      (''m'', \<lparr>unit_name = ''meters'', unit_convert = (\<lambda>x. Inr x)\<rparr>),
      (''degree_(angle)'', \<lparr>unit_name = ''angle'', unit_convert = (\<lambda>x. Inr x)\<rparr>),
      (''m_s-1'', \<lparr>unit_name = ''meters_per_second'', unit_convert = (\<lambda>x. Inr x)\<rparr>),
      (''mm'', \<lparr>unit_name = ''meters'', unit_convert = (\<lambda>x. py_truediv x 1000)\<rparr>)]"

definition convert_unit :: "string \<Rightarrow> globals \<Rightarrow> UnitConversion option \<times> globals" where
  "convert_unit u g =
     (let conversion = map_of prom_units u in
      case conversion of
        None \<Rightarrow> (conversion, g\<lparr>UNIT_CONVERSION_FAILURE := counter_inc (UNIT_CONVERSION_FAILURE g) u\<rparr>)
      | Some _ \<Rightarrow> (conversion, g))"

section \<open>fetch_current\<close>

text \<open>
  The loop over \<^verbatim>\<open>data["values"]\<close>. \<open>now\<close> is the reading \<^verbatim>\<open>pendulum.now()\<close>
  gives at the start of the call.
\<close>

definition report_end :: "pylib \<Rightarrow> json \<Rightarrow> exn + time" where
  "report_end lib report =
     (case py_getitem report ''validTime'' of
        Inl e \<Rightarrow> Inl e
      | Inr (JStr s) \<Rightarrow> pendulum_parse_end lib s
      | Inr _ \<Rightarrow> Inl TypeError)"

fun fetch_current_loop :: "pylib \<Rightarrow> time \<Rightarrow> json list \<Rightarrow> exn + json" where
  "fetch_current_loop lib now [] = Inr JNull"
| "fetch_current_loop lib now (report # rest) =
     (case report_end lib report of
        Inl e \<Rightarrow> Inl e
      | Inr e \<Rightarrow> if now < e then py_getitem report ''value'' else fetch_current_loop lib now rest)"

definition fetch_current :: "pylib \<Rightarrow> time \<Rightarrow> json \<Rightarrow> exn + json" where
  "fetch_current lib now data =
     (case py_getitem data ''values'' of
        Inl e \<Rightarrow> Inl e
      | Inr vs \<Rightarrow> (case py_iter vs of Inl e \<Rightarrow> Inl e | Inr reports \<Rightarrow> fetch_current_loop lib now reports))"

section \<open>get_weather\<close>

text \<open>The catalogue \<^verbatim>\<open>measures\<close> of the function (primed: the library has a constant of that name).\<close>

definition measures' :: "Measure list" where
  "measures' =
     [\<lparr>measure_key = ''temperature'', measure_name = ''temperature'', measure_unit = ''degC''\<rparr>,
      \<lparr>measure_key = ''dewpoint'', measure_name = ''dewpoint'', measure_unit = ''degC''\<rparr>,
      \<lparr>measure_key = ''maxTemperature'', measure_name = ''max_temperature'', measure_unit = ''degC''\<rparr>,
      \<lparr>measure_key = ''minTemperature'', measure_name = ''min_temperature'', measure_unit = ''degC''\<rparr>,
      \<lparr>measure_key = ''relativeHumidity'', measure_name = ''relative_humidity'', measure_unit = ''percent''\<rparr>,
      \<lparr>measure_key = ''apparentTemperature'', measure_name = ''apparent_temperature'', measure_unit = ''degC''\<rparr>,
      \<lparr>measure_key = ''heatIndex'', measure_name = ''heat_index'', measure_unit = ''degC''\<rparr>,
      \<lparr>measure_key = ''windChill'', measure_name = ''wind_chill'', measure_unit = ''degC''\<rparr>,
      \<lparr>measure_key = ''skyCover'', measure_name = ''sky_cover'', measure_unit = ''percent''\<rparr>,
      \<lparr>measure_key = ''windDirection'', measure_name = ''wind_direction'', measure_unit = ''degree_(angle)''\<rparr>,
      \<lparr>measure_key = ''windSpeed'', measure_name = ''wind_speed'', measure_unit = ''m_s-1''\<rparr>,
      \<lparr>measure_key = ''windGust'', measure_name = ''wind_gust'', measure_unit = ''m_s-1''\<rparr>,
      \<lparr>measure_key = ''probabilityOfPrecipitation'', measure_name = ''probability_of_precipitation'', measure_unit = ''percent''\<rparr>,
      \<lparr>measure_key = ''quantitativePrecipitation'', measure_name = ''quantitative_precipitation'', measure_unit = ''mm''\<rparr>,
      \<lparr>measure_key = ''iceAccumulation'', measure_name = ''ice_accumulation'', measure_unit = ''mm''\<rparr>,
      \<lparr>measure_key = ''snowfallAmount'', measure_name = ''snowfall_mount'', measure_unit = ''mm''\<rparr>,
      \<lparr>measure_key = ''snowLevel'', measure_name = ''snow_level'', measure_unit = ''m''\<rparr>,
      \<lparr>measure_key = ''ceilingHeight'', measure_name = ''ceiling_height'', measure_unit = ''m''\<rparr>,
      \<lparr>measure_key = ''visibility'', measure_name = ''visibility'', measure_unit = ''m''\<rparr>,
      \<lparr>measure_key = ''transportWindSpeed'', measure_name = ''transport_wind_speed'', measure_unit = ''m_s-1''\<rparr>,
      \<lparr>measure_key = ''transportWindDirection'', measure_name = ''transport_wind_direction'', measure_unit = ''degree_(angle)''\<rparr>,
      \<lparr>measure_key = ''mixingHeight'', measure_name = ''mixing_height'', measure_unit = ''m''\<rparr>,
      \<lparr>measure_key = ''twentyFootWindSpeed'', measure_name = ''twenty_foot_wind_speed'', measure_unit = ''m_s-1''\<rparr>,
      \<lparr>measure_key = ''twentyFootWindDirection'', measure_name = ''twenty_foot_wind_direction'', measure_unit = ''degree_(angle)''\<rparr>]"

text \<open>
  \<^verbatim>\<open>Gauge(name, doc, registry=registry).set(unit.convert(value))\<close>: registering a
  name the registry already has raises \<^verbatim>\<open>ValueError\<close>; then the conversion runs,
  then \<^verbatim>\<open>set\<close> turns its result into a float. Every name the catalogue below can
  produce passes the client library's check of metric names, which is not modelled.
\<close>

definition gauge_set :: "pylib \<Rightarrow> registry \<Rightarrow> string \<Rightarrow> UnitConversion \<Rightarrow> json \<Rightarrow> exn + registry" where
  "gauge_set lib registry metric_name u v =
     (if metric_name \<in> fst ` set registry then Inl ValueError
      else case unit_convert u v of
             Inl e \<Rightarrow> Inl e
           | Inr converted \<Rightarrow>
               (case py_float lib converted of
                  Inl e \<Rightarrow> Inl e
                | Inr r \<Rightarrow> Inr (registry @ [(metric_name, r)])))"

text \<open>The gauge's name, \<^verbatim>\<open>f"weather_{measure.name}_{unit.name}"\<close>.\<close>

definition gauge_name :: "Measure \<Rightarrow> UnitConversion \<Rightarrow> string" where
  "gauge_name m u = ''weather_'' @ measure_name m @ ''_'' @ unit_name u"

text \<open>\<^verbatim>\<open>data["properties"][measure.key]\<close>.\<close>

definition measure_records :: "json \<Rightarrow> Measure \<Rightarrow> exn + json" where
  "measure_records data m =
     (case py_getitem data ''properties'' of
        Inl e \<Rightarrow> Inl e
      | Inr properties \<Rightarrow> py_getitem properties (measure_key m))"

text \<open>
  The block under \<^verbatim>\<open>with FORECAST_PROCESSING_FAILURES.count_exceptions()\<close> for one
  descriptor. \<open>now\<close> is the clock reading of this iteration's \<^verbatim>\<open>fetch_current\<close>.
  Counters bumped before an exception stay bumped.
\<close>

definition measure_block ::
  "pylib \<Rightarrow> time \<Rightarrow> json \<Rightarrow> Measure \<Rightarrow> registry \<Rightarrow> globals \<Rightarrow> (exn + registry) \<times> globals" where
  "measure_block lib now data m registry g =
     (case measure_records data m of
        Inl e \<Rightarrow> (Inl e, g)
      | Inr records \<Rightarrow>
     (case py_get records ''uom'' of
        Inl e \<Rightarrow> (Inl e, g)
      | Inr uom \<Rightarrow>
     (let g1 = (if uom \<noteq> JStr (''unit:'' @ measure_unit m)
                then g\<lparr>FORECAST_MISMATCHED_UNIT :=
                         counter_inc (FORECAST_MISMATCHED_UNIT g) (measure_key m, uom)\<rparr>
                else g)
      in case fetch_current lib now records of
        Inl e \<Rightarrow> (Inl e, g1)
      | Inr v \<Rightarrow>
     (let g2 = (if v = JNull
                then g1\<lparr>FETCH_CURRENT_VALUE_FAILURE :=
                          counter_inc (FETCH_CURRENT_VALUE_FAILURE g1) (measure_key m)\<rparr>
                else g1);
          (conv, g3) = convert_unit (measure_unit m) g2
      in case conv of
        None \<Rightarrow> (Inr registry, g3)
      | Some u \<Rightarrow>
          if v = JNull then (Inr registry, g3)
          else (gauge_set lib registry (gauge_name m u) u v, g3)))))"

text \<open>
  One iteration of the loop: \<^verbatim>\<open>count_exceptions\<close> counts whatever the block raises,
  and \<^verbatim>\<open>except KeyError\<close> swallows a \<^verbatim>\<open>KeyError\<close> (printing it), so the loop goes
  on with the registry as it was; any other exception leaves \<^verbatim>\<open>get_weather\<close>.
\<close>

definition process_measure ::
  "pylib \<Rightarrow> time \<Rightarrow> json \<Rightarrow> Measure \<Rightarrow> registry \<Rightarrow> globals \<Rightarrow> (exn + registry) \<times> globals" where
  "process_measure lib now data m registry g =
     (case measure_block lib now data m registry g of
        (Inr registry', g') \<Rightarrow> (Inr registry', g')
      | (Inl e, g') \<Rightarrow>
          (let g'' = g'\<lparr>FORECAST_PROCESSING_FAILURES := Suc (FORECAST_PROCESSING_FAILURES g')\<rparr>
           in if e = KeyError then (Inr registry, g'') else (Inl e, g'')))"

text \<open>
  \<^verbatim>\<open>for measure in measures\<close>. Each descriptor comes with the clock reading of its
  iteration.
\<close>

fun for_measures ::
  "pylib \<Rightarrow> json \<Rightarrow> (Measure \<times> time) list \<Rightarrow> registry \<Rightarrow> globals \<Rightarrow> (exn + registry) \<times> globals" where
  "for_measures lib data [] registry g = (Inr registry, g)"
| "for_measures lib data ((m, now) # rest) registry g =
     (case process_measure lib now data m registry g of
        (Inl e, g') \<Rightarrow> (Inl e, g')
      | (Inr registry', g') \<Rightarrow> for_measures lib data rest registry' g')"

text \<open>
  \<^verbatim>\<open>get_weather\<close>. \<open>clock n\<close> is the reading of the \<open>n\<close>-th place of the request
  that asks for the time: place \<open>0\<close> is the cache probe, places \<open>1\<close> to \<open>24\<close> are
  the iterations of the loop, the last one is the insertion. \<open>outcome\<close> is what the
  remote API answers if it is asked. A registry object is truthy, so \<^verbatim>\<open>if cached\<close>
  holds exactly when the probe returned one.
\<close>

definition get_weather ::
  "pylib \<Rightarrow> (nat \<Rightarrow> time) \<Rightarrow> http_outcome \<Rightarrow> GridpointLocation \<Rightarrow> globals
     \<Rightarrow> (exn + registry) \<times> globals" where
  "get_weather lib clock outcome location g =
     (case ExpiringCache_get (clock 0) location (weather_cache g) of
        (Some cached, c) \<Rightarrow> (Inr cached, g\<lparr>weather_cache := c\<rparr>)
      | (None, c) \<Rightarrow>
     (let g1 = g\<lparr>weather_cache := c, sent := Gridpoints location # sent g\<rparr> in
      case requests_get_json outcome of
        Inl e \<Rightarrow> (Inl e, g1\<lparr>FORECAST_LOOKUP_FAILURES := Suc (FORECAST_LOOKUP_FAILURES g1)\<rparr>)
      | Inr data \<Rightarrow>
     (case for_measures lib data (zip measures' (map clock [1..<Suc (length measures')])) [] g1 of
        (Inl e, g2) \<Rightarrow> (Inl e, g2)
      | (Inr registry, g2) \<Rightarrow>
     (case ExpiringCache_insert (clock (Suc (length measures'))) location registry (weather_cache g2) of
        (Inl e, c2) \<Rightarrow> (Inl e, g2\<lparr>weather_cache := c2\<rparr>)
      | (Inr _, c2) \<Rightarrow> (Inr registry, g2\<lparr>weather_cache := c2\<rparr>)))))"

section \<open>Example inputs\<close>

text \<open>
  Concrete inputs for the worked cases below. The example library knows two interval
  texts, one ending on 2020-01-01 01:00 UTC and one ending on 2030-01-01 01:00 UTC; the
  example clock reads 2025-11-03 00:00 UTC. The example forecast has no
  \<^verbatim>\<open>temperature\<close> key, declares the wrong unit for \<^verbatim>\<open>relativeHumidity\<close>, has only
  an ended reading for \<^verbatim>\<open>windSpeed\<close>, and carries a key \<^verbatim>\<open>pressure\<close> in a unit
  the converter does not know.
\<close>

definition example_lib :: pylib where
  "example_lib =
     \<lparr>pendulum_parse_end =
        (\<lambda>s. if s = ''2020-01-01T00:00:00+00:00/PT1H'' then Inr 1577840400000000
              else if s = ''2030-01-01T00:00:00+00:00/PT1H'' then Inr 1893459600000000
              else Inl ValueError),
      float_of_str = (\<lambda>s. None)\<rparr>"

definition example_now :: time where
  "example_now = 1762128000000000"

definition reading :: "string \<Rightarrow> json \<Rightarrow> json" where
  "reading valid_time v = JObj [(''validTime'', JStr valid_time), (''value'', v)]"

definition ended :: "json \<Rightarrow> json" where
  "ended v = reading ''2020-01-01T00:00:00+00:00/PT1H'' v"

definition current :: "json \<Rightarrow> json" where
  "current v = reading ''2030-01-01T00:00:00+00:00/PT1H'' v"

definition series :: "string \<Rightarrow> json list \<Rightarrow> json" where
  "series uom reports = JObj [(''uom'', JStr uom), (''values'', JArr reports)]"

definition example_forecast :: json where
  "example_forecast =
     JObj [(''properties'', JObj
       [(''dewpoint'', series ''unit:degC'' [ended (JNum 1), current (JNum 2)]),
        (''relativeHumidity'', series ''unit:degC'' [current (JNum 50)]),
        (''windSpeed'', series ''unit:m_s-1'' [ended (JNum 3)]),
        (''pressure'', series ''unit:Pa'' [current (JNum 101325)])])]"

definition example_location :: GridpointLocation where
  "example_location = \<lparr>location_wfo = JStr ''OKX'', location_x = JNum 33, location_y = JNum 37\<rparr>"

definition example_latlong :: LatLong where
  "example_latlong = \<lparr>latitude = ''40.75'', longitude = ''-73.98''\<rparr>"

definition example_points :: json where
  "example_points =
     JObj [(''properties'',
       JObj [(''cwa'', JStr ''OKX''), (''gridX'', JNum 33), (''gridY'', JNum 37)])]"

definition example_problem :: "nat \<Rightarrow> json" where
  "example_problem status = JObj [(''title'', JStr ''Error''), (''status'', JNum (real status))]"

section \<open>Properties of ExpiringCache\<close>

subsection \<open>The dictionary operations\<close>

lemma map_of_delete: "map_of (AList.delete k es) k' = (if k' = k then None else map_of es k')"
  by (simp add: AList.delete_conv')

lemma delete_absent: "k \<notin> fst ` set es \<Longrightarrow> AList.delete k es = es"
  by (induction es) auto

lemma length_delete_le: "length (AList.delete k es) \<le> length es"
  by (simp add: AList.delete_eq)

lemma length_delete_present:
  "distinct (map fst es) \<Longrightarrow> map_of es k = Some x \<Longrightarrow> Suc (length (AList.delete k es)) = length es"
proof (induction es)
  case Nil
  then show ?case by simp
next
  case (Cons e es)
  show ?case
  proof (cases "fst e = k")
    case True
    with Cons.prems(1) have "k \<notin> fst ` set es" by auto
    then have "AList.delete k es = es" by (rule delete_absent)
    with True show ?thesis by (cases e) simp
  next
    case False
    with Cons show ?thesis by (cases e) auto
  qed
qed

lemma move_after_set:
  "move_to_end_first key (setitem key x es) = Inr ((key, x) # AList.delete key es)"
  by (simp add: move_to_end_first_def setitem_def update_conv' AList.delete_update_same)

subsection \<open>What insert does, case by case\<close>

lemma insert_store_eq:
  "insert_store now key v c =
     (Inr (), c\<lparr>entries := (key, \<lparr>validity = pendulum_add now (age_params c), value' = v\<rparr>)
                              # AList.delete key (entries c),
               metric_cache_write := counter_inc (metric_cache_write c) (cache_name c)\<rparr>)"
  by (simp add: insert_store_def move_after_set Let_def)

lemma insert_below:
  "\<not> max_size c \<le> int (length (entries c)) \<Longrightarrow>
   ExpiringCache_insert now key v c =
     (Inr (), c\<lparr>entries := (key, \<lparr>validity = pendulum_add now (age_params c), value' = v\<rparr>)
                              # AList.delete key (entries c),
               metric_cache_write := counter_inc (metric_cache_write c) (cache_name c)\<rparr>)"
  by (simp add: ExpiringCache_insert_def insert_store_eq)

lemma insert_full:
  "max_size c \<le> int (length (entries c)) \<Longrightarrow> entries c \<noteq> [] \<Longrightarrow>
   ExpiringCache_insert now key v c =
     (Inr (), c\<lparr>metric_cache_overflow := counter_inc (metric_cache_overflow c) (cache_name c),
               entries := (key, \<lparr>validity = pendulum_add now (age_params c), value' = v\<rparr>)
                              # AList.delete key (butlast (entries c)),
               metric_cache_write := counter_inc (metric_cache_write c) (cache_name c)\<rparr>)"
  by (simp add: ExpiringCache_insert_def insert_store_eq popitem_def Let_def)

lemma insert_empty_full:
  "max_size c \<le> int (length (entries c)) \<Longrightarrow> entries c = [] \<Longrightarrow>
   ExpiringCache_insert now key v c =
     (Inl KeyError, c\<lparr>metric_cache_overflow := counter_inc (metric_cache_overflow c) (cache_name c)\<rparr>)"
  by (simp add: ExpiringCache_insert_def popitem_def Let_def)

lemma insert_cases:
  obtains (below) "\<not> max_size c \<le> int (length (entries c))"
  | (full) "max_size c \<le> int (length (entries c))" "entries c \<noteq> []"
  | (empty) "max_size c \<le> int (length (entries c))" "entries c = []"
  by blast

lemma insert_max_size: "max_size (snd (ExpiringCache_insert now key v c)) = max_size c"
  by (cases c rule: insert_cases) (simp_all add: insert_below insert_full insert_empty_full)

lemma insert_name: "cache_name (snd (ExpiringCache_insert now key v c)) = cache_name c"
  by (cases c rule: insert_cases) (simp_all add: insert_below insert_full insert_empty_full)

lemma get_max_size: "max_size (snd (ExpiringCache_get now key c)) = max_size c"
  by (simp add: ExpiringCache_get_def split: option.split)

subsection \<open>The size bound along a history\<close>

lemma insert_returns_bounded:
  assumes "bounded c" and "ExpiringCache_insert now key v c = (Inr (), c')"
  shows "int (length (entries c')) \<le> max_size c'"
proof (cases c rule: insert_cases)
  case below
  have "length (AList.delete key (entries c)) \<le> length (entries c)" by (rule length_delete_le)
  with below assms(2) show ?thesis by (auto simp add: insert_below)
next
  case empty
  with assms(2) show ?thesis by (simp add: insert_empty_full)
next
  case full
  have "length (AList.delete key (butlast (entries c))) \<le> length (butlast (entries c))"
    by (rule length_delete_le)
  moreover have "int (length (entries c)) \<le> max_size c"
    using assms(1) full(2) by (simp add: bounded_def)
  moreover have "length (butlast (entries c)) < length (entries c)"
    using full(2) by (simp add: length_greater_0_conv)
  ultimately have "1 + int (length (AList.delete key (butlast (entries c)))) \<le> max_size c"
    by linarith
  then show ?thesis using full assms(2) by (auto simp add: insert_full)
qed

lemma bounded_get: "bounded c \<Longrightarrow> bounded (snd (ExpiringCache_get now key c))"
proof -
  assume b: "bounded c"
  have "length (AList.delete key (entries c)) \<le> length (entries c)" by (rule length_delete_le)
  with b show ?thesis
    by (auto simp add: bounded_def ExpiringCache_get_def delitem_def split: option.split)
qed

lemma bounded_insert: "bounded c \<Longrightarrow> bounded (snd (ExpiringCache_insert now key v c))"
proof (cases c rule: insert_cases)
  case empty
  show ?thesis unfolding insert_empty_full[OF empty] using empty(2) by (simp add: bounded_def)
next
  case below
  assume b: "bounded c"
  have "ExpiringCache_insert now key v c = (Inr (), snd (ExpiringCache_insert now key v c))"
    by (simp add: insert_below[OF below])
  from insert_returns_bounded[OF b this] show ?thesis by (simp add: bounded_def)
next
  case full
  assume b: "bounded c"
  have "ExpiringCache_insert now key v c = (Inr (), snd (ExpiringCache_insert now key v c))"
    by (simp add: insert_full[OF full])
  from insert_returns_bounded[OF b this] show ?thesis by (simp add: bounded_def)
qed

lemma bounded_apply_op: "bounded c \<Longrightarrow> bounded (apply_op x c)"
  by (cases x) (simp_all add: bounded_get bounded_insert)

lemma bounded_run_ops: "bounded c \<Longrightarrow> bounded (run_ops ops c)"
  unfolding run_ops_def by (induction ops arbitrary: c) (simp_all add: bounded_apply_op)

lemma bounded_init: "bounded (ExpiringCache_init name n p)"
  by (simp add: bounded_def ExpiringCache_init_def)

subsection \<open>Keys stay distinct along a history\<close>

lemma distinct_new_front:
  "distinct (map fst es) \<Longrightarrow> distinct (map fst ((key, x) # AList.delete key es))"
  by (simp add: AList.distinct_delete AList.delete_notin_dom)

lemma distinct_insert:
  assumes "distinct (map fst (entries c))"
  shows "distinct (map fst (entries (snd (ExpiringCache_insert now key v c))))"
proof (cases c rule: insert_cases)
  case below
  show ?thesis unfolding insert_below[OF below] using distinct_new_front[OF assms] by simp
next
  case empty
  show ?thesis unfolding insert_empty_full[OF empty] using assms by simp
next
  case full
  from assms have "distinct (map fst (butlast (entries c)))"
    by (simp add: map_butlast distinct_butlast)
  from distinct_new_front[OF this] show ?thesis unfolding insert_full[OF full] by simp
qed

lemma distinct_get:
  "distinct (map fst (entries c)) \<Longrightarrow> distinct (map fst (entries (snd (ExpiringCache_get now key c))))"
  by (simp add: ExpiringCache_get_def delitem_def AList.distinct_delete split: option.split)

lemma distinct_run_ops:
  "distinct (map fst (entries c)) \<Longrightarrow> distinct (map fst (entries (run_ops ops c)))"
  unfolding run_ops_def
proof (induction ops arbitrary: c)
  case Nil
  then show ?case by simp
next
  case (Cons x ops)
  have "distinct (map fst (entries (apply_op x c)))"
    using Cons.prems by (cases x) (simp_all add: distinct_get distinct_insert)
  from Cons.IH[OF this] show ?case by simp
qed

subsection \<open>Distinct keys inserted into a fresh cache\<close>

lemma fresh_inserts:
  assumes "1 \<le> n" and "distinct (map (\<lambda>x. fst (snd x)) xs)"
  shows "map fst (entries (run_ops (insert_ops xs) (ExpiringCache_init name (int n) p)))
           = take n (rev (map (\<lambda>x. fst (snd x)) xs))
       \<and> metric_cache_overflow (run_ops (insert_ops xs) (ExpiringCache_init name (int n) p)) name
           = length xs - n
       \<and> max_size (run_ops (insert_ops xs) (ExpiringCache_init name (int n) p)) = int n
       \<and> cache_name (run_ops (insert_ops xs) (ExpiringCache_init name (int n) p)) = name"
  using assms(2)
proof (induction xs rule: rev_induct)
  case Nil
  then show ?case by (simp add: insert_ops_def run_ops_def ExpiringCache_init_def)
next
  case (snoc x xs)
  obtain now key v where x: "x = (now, key, v)" by (cases x)
  let ?c = "run_ops (insert_ops xs) (ExpiringCache_init name (int n) p)"
  from snoc.prems x have d: "distinct (map (\<lambda>x. fst (snd x)) xs)"
    and fresh: "key \<notin> set (map (\<lambda>x. fst (snd x)) xs)"
    by simp_all
  from snoc.IH[OF d] have keys: "map fst (entries ?c) = take n (rev (map (\<lambda>x. fst (snd x)) xs))"
    and ov: "metric_cache_overflow ?c name = length xs - n"
    and ms: "max_size ?c = int n" and nm: "cache_name ?c = name" by simp_all
  have step: "run_ops (insert_ops (xs @ [x])) (ExpiringCache_init name (int n) p)
                = snd (ExpiringCache_insert now key v ?c)"
    by (simp add: insert_ops_def run_ops_def x)
  have len: "length (entries ?c) = min (length xs) n"
    using arg_cong[OF keys, of length] by (simp add: min.commute)
  have notin: "key \<notin> fst ` set (entries ?c)"
  proof
    assume "key \<in> fst ` set (entries ?c)"
    then have "key \<in> set (map fst (entries ?c))" by simp
    then have "key \<in> set (take n (rev (map (\<lambda>x. fst (snd x)) xs)))" by (simp only: keys)
    then have "key \<in> set (rev (map (\<lambda>x. fst (snd x)) xs))" by (rule in_set_takeD)
    with fresh show False by simp
  qed
  show ?case
  proof (cases "max_size ?c \<le> int (length (entries ?c))")
    case False
    then have lt: "length xs < n" using len ms by auto
    from notin have del: "AList.delete key (entries ?c) = entries ?c" by (rule delete_absent)
    show ?thesis unfolding step insert_below[OF False]
      using keys ov ms nm lt del x by simp
  next
    case True
    then have ge: "n \<le> length xs" using len ms by auto
    with assms(1) len have ne: "entries ?c \<noteq> []" by auto
    have "key \<notin> fst ` set (butlast (entries ?c))" using notin by (auto dest: in_set_butlastD)
    then have del: "AList.delete key (butlast (entries ?c)) = butlast (entries ?c)"
      by (rule delete_absent)
    have bl: "map fst (butlast (entries ?c)) = take (n - 1) (rev (map (\<lambda>x. fst (snd x)) xs))"
      using keys ge by (simp add: map_butlast butlast_take)
    have tk: "key # take (n - 1) (rev (map (\<lambda>x. fst (snd x)) xs))
                = take n (key # rev (map (\<lambda>x. fst (snd x)) xs))"
      using assms(1) by (cases n) simp_all
    show ?thesis unfolding step insert_full[OF True ne]
      using ov ms nm ge del bl tk x by (simp add: counter_inc_def Suc_diff_le)
  qed
qed

subsection \<open>Evaluating a history\<close>

lemmas cache_eval =
  run_ops_def insert_ops_def ExpiringCache_init_def weather_cache_init_def five_minutes_def
  ExpiringCache_insert_def insert_store_eq popitem_def ExpiringCache_get_def delitem_def
  pendulum_add_def counter_inc_def Let_def

subsection \<open>Expired entries\<close>

text \<open>
  C1, as the code has it. The comparison in \<^verbatim>\<open>get\<close> is \<^verbatim>\<open>validity < now\<close>, so an
  entry counts as expired only when the clock is strictly past its \<open>validity\<close>: for a
  key whose entry has \<open>validity < now\<close>, \<^verbatim>\<open>get\<close> returns absent, the key is gone from
  the dictionary while every other key keeps its entry, and the miss counter and the
  expiration counter of this cache grow by one each (the hit counter stays). Hence a
  value that \<^verbatim>\<open>get\<close> returns is the stored value of an entry with \<open>now \<le> validity\<close>.
\<close>

theorem get_purges_expired_entry:
  "(map_of (entries c) key = Some record \<and> validity record < now \<longrightarrow>
      fst (ExpiringCache_get now key c) = None
    \<and> map_of (entries (snd (ExpiringCache_get now key c))) key = None
    \<and> (\<forall>k. k \<noteq> key \<longrightarrow>
          map_of (entries (snd (ExpiringCache_get now key c))) k = map_of (entries c) k)
    \<and> metric_cache_get (snd (ExpiringCache_get now key c)) (cache_name c, ''miss'')
        = metric_cache_get c (cache_name c, ''miss'') + 1
    \<and> metric_cache_get (snd (ExpiringCache_get now key c)) (cache_name c, ''hit'')
        = metric_cache_get c (cache_name c, ''hit'')
    \<and> metric_cache_expirations (snd (ExpiringCache_get now key c)) (cache_name c)
        = metric_cache_expirations c (cache_name c) + 1)
   \<and> (fst (ExpiringCache_get now' key' c') = Some v \<longrightarrow>
        (\<exists>r. map_of (entries c') key' = Some r \<and> value' r = v \<and> now' \<le> validity r))"
  by (auto simp add: ExpiringCache_get_def delitem_def map_of_delete counter_inc_def
      split: option.splits)

theorem get_purges_expired_entry_witness:
  "map_of (entries (snd (ExpiringCache_insert 0 (7::nat) ''report'' weather_cache_init))) 7
     = Some \<lparr>validity = 300000000, value' = ''report''\<rparr>
   \<and> validity \<lparr>validity = 300000000, value' = ''report''\<rparr> < 300000001
   \<and> fst (ExpiringCache_get 300000001 7
            (snd (ExpiringCache_insert 0 (7::nat) ''report'' weather_cache_init))) = None
   \<and> map_of (entries (snd (ExpiringCache_get 300000001 7
            (snd (ExpiringCache_insert 0 (7::nat) ''report'' weather_cache_init))))) 7 = None
   \<and> metric_cache_expirations (snd (ExpiringCache_get 300000001 7
            (snd (ExpiringCache_insert 0 (7::nat) ''report'' weather_cache_init)))) ''forecasts'' = 1
   \<and> fst (ExpiringCache_get 299999999 7
            (snd (ExpiringCache_insert 0 (7::nat) ''report'' weather_cache_init))) = Some ''report''
   \<and> (\<exists>r. map_of (entries (snd (ExpiringCache_insert 0 (7::nat) ''report'' weather_cache_init))) 7
              = Some r \<and> value' r = ''report'' \<and> 299999999 \<le> validity r)"
proof -
  let ?c = "snd (ExpiringCache_insert 0 (7::nat) ''report'' weather_cache_init)"
  let ?r = "\<lparr>validity = 300000000, value' = ''report''\<rparr>"
  have stored: "map_of (entries ?c) 7 = Some ?r \<and> validity ?r < 300000001"
    by (simp add: cache_eval)
  have name: "cache_name ?c = ''forecasts''"
    by (simp add: insert_name) (simp add: cache_eval)
  have zero: "metric_cache_expirations ?c ''forecasts'' = 0"
    by (simp add: cache_eval)
  have hit: "fst (ExpiringCache_get 299999999 7 ?c) = Some ''report''"
    by (simp add: cache_eval)
  show ?thesis
    using stored name zero hit
      get_purges_expired_entry [of ?c 7 ?r 300000001 299999999 7 ?c "''report''"]
    by simp
qed

text \<open>
  At the instant of expiry the entry is still served: an entry inserted at time \<open>0\<close>
  into the forecast cache has \<open>validity\<close> five minutes later, and a \<^verbatim>\<open>get\<close> at exactly
  that reading returns the stored value, keeps the entry and counts a hit.
\<close>

theorem get_at_expiry_instant_returns_value:
  "map_of (entries (snd (ExpiringCache_insert 0 (7::nat) ''report'' weather_cache_init))) 7
     = Some \<lparr>validity = 300000000, value' = ''report''\<rparr>
   \<and> validity \<lparr>validity = 300000000, value' = ''report''\<rparr> \<le> 300000000
   \<and> fst (ExpiringCache_get 300000000 7
            (snd (ExpiringCache_insert 0 (7::nat) ''report'' weather_cache_init))) = Some ''report''
   \<and> map_of (entries (snd (ExpiringCache_get 300000000 7
            (snd (ExpiringCache_insert 0 (7::nat) ''report'' weather_cache_init))))) 7
     = Some \<lparr>validity = 300000000, value' = ''report''\<rparr>
   \<and> metric_cache_get (snd (ExpiringCache_get 300000000 7
            (snd (ExpiringCache_insert 0 (7::nat) ''report'' weather_cache_init))))
        (''forecasts'', ''miss'') = 0
   \<and> metric_cache_expirations (snd (ExpiringCache_get 300000000 7
            (snd (ExpiringCache_insert 0 (7::nat) ''report'' weather_cache_init)))) ''forecasts'' = 0"
  by (simp add: cache_eval)

subsection \<open>The size bound\<close>

text \<open>
  C2. Take a cache as its constructor leaves it, with any name, bound and age
  parameters, and let a caller run any list of \<^verbatim>\<open>get\<close> and \<^verbatim>\<open>insert\<close> calls on it.
  Whenever an \<^verbatim>\<open>insert\<close> made after that history returns, the dictionary holds at most
  \<open>max_size\<close> entries.
\<close>

theorem size_bounded_after_insert:
  assumes "c = run_ops ops (ExpiringCache_init name n p)"
    and "ExpiringCache_insert now key v c = (Inr (), c')"
  shows "int (length (entries c')) \<le> max_size c'"
  using insert_returns_bounded[OF _ assms(2)] bounded_run_ops[OF bounded_init] assms(1) by blast

theorem size_bounded_after_insert_witness:
  "fst (ExpiringCache_insert 3 (3::nat) ''c''
      (run_ops [Insert 0 1 ''a'', Get 1 1, Insert 2 2 ''b''] (ExpiringCache_init ''w'' 1 five_minutes)))
     = Inr ()
   \<and> int (length (entries (snd (ExpiringCache_insert 3 (3::nat) ''c''
          (run_ops [Insert 0 1 ''a'', Get 1 1, Insert 2 2 ''b''] (ExpiringCache_init ''w'' 1 five_minutes))))))
       \<le> max_size (snd (ExpiringCache_insert 3 (3::nat) ''c''
          (run_ops [Insert 0 1 ''a'', Get 1 1, Insert 2 2 ''b''] (ExpiringCache_init ''w'' 1 five_minutes))))"
proof -
  let ?c = "run_ops [Insert 0 (1::nat) ''a'', Get 1 1, Insert 2 2 ''b''] (ExpiringCache_init ''w'' 1 five_minutes)"
  have ok: "fst (ExpiringCache_insert 3 3 ''c'' ?c) = Inr ()"
    by (simp add: cache_eval)
  then have returns:
    "ExpiringCache_insert 3 3 ''c'' ?c = (Inr (), snd (ExpiringCache_insert 3 3 ''c'' ?c))"
    by (simp add: prod_eq_iff)
  from size_bounded_after_insert [OF refl returns] ok show ?thesis by blast
qed

subsection \<open>Eviction\<close>

text \<open>
  C3, as the code has it. An \<^verbatim>\<open>insert\<close> into a cache that holds at least one entry and
  has \<open>max_size \<le> size\<close> returns, removes exactly the last entry of the order (the one
  inserted longest ago) before it stores the new entry in front, and bumps the overflow
  counter of this cache by one. Inserting \<open>n + 1\<close> distinct keys, in order, into a
  fresh cache with \<open>max_size = n \<ge> 1\<close> leaves the last \<open>n\<close> keys, newest first: the
  first key is the one evicted, \<open>n\<close> entries remain and the overflow counter reads one.
\<close>

theorem insert_at_capacity_evicts_tail:
  "(max_size c \<le> int (length (entries c)) \<and> entries c \<noteq> [] \<longrightarrow>
      fst (ExpiringCache_insert now key v c) = Inr ()
    \<and> entries (snd (ExpiringCache_insert now key v c))
        = (key, \<lparr>validity = pendulum_add now (age_params c), value' = v\<rparr>)
            # AList.delete key (butlast (entries c))
    \<and> metric_cache_overflow (snd (ExpiringCache_insert now key v c)) (cache_name c)
        = metric_cache_overflow c (cache_name c) + 1)
   \<and> (1 \<le> n \<and> distinct (map (\<lambda>x. fst (snd x)) xs) \<and> length xs = n + 1 \<longrightarrow>
        map fst (entries (run_ops (insert_ops xs) (ExpiringCache_init name (int n) p)))
          = rev (tl (map (\<lambda>x. fst (snd x)) xs))
      \<and> length (entries (run_ops (insert_ops xs) (ExpiringCache_init name (int n) p))) = n
      \<and> metric_cache_overflow (run_ops (insert_ops xs) (ExpiringCache_init name (int n) p)) name = 1)"
proof (intro conjI impI)
  assume a: "max_size c \<le> int (length (entries c)) \<and> entries c \<noteq> []"
  then have full: "max_size c \<le> int (length (entries c))" and ne: "entries c \<noteq> []" by blast+
  show "fst (ExpiringCache_insert now key v c) = Inr ()"
    by (simp add: insert_full[OF full ne])
  show "entries (snd (ExpiringCache_insert now key v c))
        = (key, \<lparr>validity = pendulum_add now (age_params c), value' = v\<rparr>)
            # AList.delete key (butlast (entries c))"
    by (simp add: insert_full[OF full ne])
  show "metric_cache_overflow (snd (ExpiringCache_insert now key v c)) (cache_name c)
        = metric_cache_overflow c (cache_name c) + 1"
    by (simp add: insert_full[OF full ne] counter_inc_def)
next
  assume a: "1 \<le> n \<and> distinct (map (\<lambda>x. fst (snd x)) xs) \<and> length xs = n + 1"
  then have n: "1 \<le> n" and d: "distinct (map (\<lambda>x. fst (snd x)) xs)" and l: "length xs = n + 1"
    by blast+
  let ?c = "run_ops (insert_ops xs) (ExpiringCache_init name (int n) p)"
  note f = fresh_inserts[OF n d, of name p]
  have "take n (rev (map (\<lambda>x. fst (snd x)) xs)) = rev (drop 1 (map (\<lambda>x. fst (snd x)) xs))"
    using l by (simp add: take_rev)
  then have tk: "take n (rev (map (\<lambda>x. fst (snd x)) xs)) = rev (tl (map (\<lambda>x. fst (snd x)) xs))"
    by (simp add: drop_Suc)
  show k: "map fst (entries ?c) = rev (tl (map (\<lambda>x. fst (snd x)) xs))"
    using f tk by simp
  show "length (entries ?c) = n"
    using arg_cong[OF k, of length] l by simp
  show "metric_cache_overflow ?c name = 1"
    using f l by simp
qed

theorem insert_at_capacity_evicts_tail_witness:
  "max_size (run_ops (insert_ops [(0, 1::nat, ''a''), (1, 2, ''b'')]) (ExpiringCache_init ''w'' 2 five_minutes))
     \<le> int (length (entries
          (run_ops (insert_ops [(0, 1::nat, ''a''), (1, 2, ''b'')]) (ExpiringCache_init ''w'' 2 five_minutes))))
   \<and> map fst (entries
        (run_ops (insert_ops [(0, 1::nat, ''a''), (1, 2, ''b'')]) (ExpiringCache_init ''w'' 2 five_minutes)))
       = [2, 1]
   \<and> map fst (entries (snd (ExpiringCache_insert 2 3 ''c''
        (run_ops (insert_ops [(0, 1::nat, ''a''), (1, 2, ''b'')]) (ExpiringCache_init ''w'' 2 five_minutes)))))
       = [3, 2]
   \<and> (1::nat) \<le> 2 \<and> distinct (map (\<lambda>x. fst (snd x)) [(0::int, 1::nat, ''a''), (1, 2, ''b''), (2, 3, ''c'')])
   \<and> map fst (entries (run_ops (insert_ops [(0, 1::nat, ''a''), (1, 2, ''b''), (2, 3, ''c'')])
        (ExpiringCache_init ''w'' (int 2) five_minutes))) = [3, 2]
   \<and> metric_cache_overflow (run_ops (insert_ops [(0, 1::nat, ''a''), (1, 2, ''b''), (2, 3, ''c'')])
        (ExpiringCache_init ''w'' (int 2) five_minutes)) ''w'' = 1"
proof -
  let ?c = "run_ops (insert_ops [(0, 1::nat, ''a''), (1, 2, ''b'')]) (ExpiringCache_init ''w'' 2 five_minutes)"
  let ?xs = "[(0::int, 1::nat, ''a''), (1, 2, ''b''), (2, 3, ''c'')]"
  have full: "max_size ?c \<le> int (length (entries ?c)) \<and> entries ?c \<noteq> []"
    by (simp add: cache_eval)
  have keys: "map fst (entries ?c) = [2, 1]"
    by (simp add: cache_eval)
  have del: "map fst (AList.delete 3 (butlast (entries ?c))) = [2]"
    by (simp add: cache_eval)
  have seq: "(1::nat) \<le> 2 \<and> distinct (map (\<lambda>x. fst (snd x)) ?xs) \<and> length ?xs = 2 + 1"
    by simp
  show ?thesis
    using full keys del seq
      insert_at_capacity_evicts_tail [of ?c 2 3 "''c''" 2 ?xs "''w''" five_minutes]
    by simp
qed

text \<open>
  With \<open>max_size = 0\<close> the fresh, empty cache already has \<open>max_size \<le> size\<close>: the
  insert bumps the overflow counter, \<^verbatim>\<open>popitem\<close> raises \<^verbatim>\<open>KeyError\<close> on the empty
  dictionary, no entry is evicted and none is stored.
\<close>

theorem insert_zero_capacity_raises:
  "max_size (ExpiringCache_init ''w'' 0 five_minutes :: (nat, string) ExpiringCache)
     \<le> int (length (entries (ExpiringCache_init ''w'' 0 five_minutes :: (nat, string) ExpiringCache)))
   \<and> fst (ExpiringCache_insert 0 (1::nat) ''a'' (ExpiringCache_init ''w'' 0 five_minutes)) = Inl KeyError
   \<and> entries (snd (ExpiringCache_insert 0 (1::nat) ''a'' (ExpiringCache_init ''w'' 0 five_minutes))) = []
   \<and> metric_cache_overflow (snd (ExpiringCache_insert 0 (1::nat) ''a'' (ExpiringCache_init ''w'' 0 five_minutes)))
       ''w'' = 1"
  by (simp add: cache_eval)

subsection \<open>Inserting a key again\<close>

text \<open>
  C4, as the code has it. Inserting a key that the cache already holds returns, gives
  the key a fresh entry with \<open>validity = now + ttl\<close> and puts it first in the order.
  The size is unchanged when the cache is below its bound or the key is itself the last
  entry of the order. When the cache is at its bound and another key is last, that last
  entry is evicted as on any insert at the bound, and the size drops by one. (The keys
  of the dictionary are distinct in every cache that a history of calls reaches.)
\<close>

theorem reinsert_existing_key:
  assumes "distinct (map fst (entries c))" and "map_of (entries c) key = Some old"
  shows "fst (ExpiringCache_insert now key v c) = Inr ()
       \<and> hd (entries (snd (ExpiringCache_insert now key v c)))
           = (key, \<lparr>validity = pendulum_add now (age_params c), value' = v\<rparr>)
       \<and> map_of (entries (snd (ExpiringCache_insert now key v c))) key
           = Some \<lparr>validity = pendulum_add now (age_params c), value' = v\<rparr>
       \<and> (if int (length (entries c)) < max_size c \<or> fst (last (entries c)) = key
          then length (entries (snd (ExpiringCache_insert now key v c))) = length (entries c)
          else Suc (length (entries (snd (ExpiringCache_insert now key v c)))) = length (entries c)
             \<and> map_of (entries (snd (ExpiringCache_insert now key v c))) (fst (last (entries c))) = None)"
proof (cases "max_size c \<le> int (length (entries c))")
  case False
  from length_delete_present[OF assms] show ?thesis
    using False by (simp add: insert_below)
next
  case True
  from assms(2) have ne: "entries c \<noteq> []" by auto
  then obtain es l where es: "entries c = es @ [l]" by (cases "entries c" rule: rev_cases) auto
  note eq = insert_full[OF True ne]
  show ?thesis
  proof (cases "fst l = key")
    case True
    with assms(1) es have "key \<notin> fst ` set es" by auto
    then have "AList.delete key es = es" by (rule delete_absent)
    with True es show ?thesis unfolding eq by simp
  next
    case False
    from assms(1) es have d: "distinct (map fst es)" and nl: "fst l \<notin> fst ` set es" by auto
    from assms(2) es False have "map_of es key = Some old"
      by (cases l) (auto simp add: map_add_Some_iff split: if_splits)
    from length_delete_present[OF d this] have len: "Suc (length (AList.delete key es)) = length es" .
    have "map_of (AList.delete key es) (fst l) = None"
      using nl by (simp add: map_of_delete map_of_eq_None_iff)
    with False es len \<open>max_size c \<le> int (length (entries c))\<close> show ?thesis unfolding eq by simp
  qed
qed

theorem reinsert_existing_key_witness:
  "distinct (map fst (entries
      (run_ops (insert_ops [(0, 1::nat, ''a''), (1, 2, ''b'')]) (ExpiringCache_init ''w'' 3 five_minutes))))
   \<and> map_of (entries
      (run_ops (insert_ops [(0, 1::nat, ''a''), (1, 2, ''b'')]) (ExpiringCache_init ''w'' 3 five_minutes))) 2
       = Some \<lparr>validity = pendulum_add 1 five_minutes, value' = ''b''\<rparr>
   \<and> length (entries
      (run_ops (insert_ops [(0, 1::nat, ''a''), (1, 2, ''b'')]) (ExpiringCache_init ''w'' 3 five_minutes))) = 2
   \<and> length (entries (snd (ExpiringCache_insert 5 2 ''c''
      (run_ops (insert_ops [(0, 1::nat, ''a''), (1, 2, ''b'')]) (ExpiringCache_init ''w'' 3 five_minutes))))) = 2
   \<and> hd (entries (snd (ExpiringCache_insert 5 2 ''c''
      (run_ops (insert_ops [(0, 1::nat, ''a''), (1, 2, ''b'')]) (ExpiringCache_init ''w'' 3 five_minutes)))))
       = (2, \<lparr>validity = pendulum_add 5 five_minutes, value' = ''c''\<rparr>)"
proof -
  let ?c = "run_ops (insert_ops [(0, 1::nat, ''a''), (1, 2, ''b'')]) (ExpiringCache_init ''w'' 3 five_minutes)"
  have d: "distinct (map fst (entries ?c))"
    by (simp add: cache_eval)
  have old: "map_of (entries ?c) 2 = Some \<lparr>validity = pendulum_add 1 five_minutes, value' = ''b''\<rparr>"
    by (simp add: cache_eval)
  have facts: "length (entries ?c) = 2 \<and> max_size ?c = 3 \<and> age_params ?c = five_minutes"
    by (simp add: cache_eval)
  show ?thesis
    using d old facts reinsert_existing_key [OF d old, of 5 "''c''"]
    by simp
qed

text \<open>
  A cache with \<open>max_size = 2\<close> holds the keys \<open>2\<close> and \<open>1\<close>; inserting key \<open>2\<close>
  again evicts key \<open>1\<close> and leaves one entry where there were two.
\<close>

theorem reinsert_at_capacity_shrinks:
  "map fst (entries
      (run_ops (insert_ops [(0, 1::nat, ''a''), (1, 2, ''b'')]) (ExpiringCache_init ''w'' 2 five_minutes)))
     = [2, 1]
   \<and> fst (ExpiringCache_insert 5 2 ''c''
      (run_ops (insert_ops [(0, 1::nat, ''a''), (1, 2, ''b'')]) (ExpiringCache_init ''w'' 2 five_minutes)))
     = Inr ()
   \<and> map fst (entries (snd (ExpiringCache_insert 5 2 ''c''
      (run_ops (insert_ops [(0, 1::nat, ''a''), (1, 2, ''b'')]) (ExpiringCache_init ''w'' 2 five_minutes)))))
     = [2]"
  by (simp add: cache_eval)

section \<open>Properties of the pipeline\<close>

lemmas example_eval =
  example_lib_def example_now_def reading_def ended_def current_def series_def
  example_forecast_def example_location_def example_latlong_def example_points_def
  example_problem_def

subsection \<open>The unit table and the extractor\<close>

lemma convert_unit_fst: "fst (convert_unit u g) = map_of prom_units u"
  by (simp add: convert_unit_def Let_def split: option.split)

lemma prom_units_numeric:
  "map_of prom_units t = Some u \<Longrightarrow>
   unit_convert u (JNum x)
     = Inr (JNum (if t = ''percent'' then x / 100 else if t = ''mm'' then x / 1000 else x))"
  by (auto simp add: prom_units_def split: if_splits)

lemma fetch_current_loop_find:
  assumes "\<forall>r \<in> set reports. \<exists>s e v. py_getitem r ''validTime'' = Inr (JStr s)
              \<and> pendulum_parse_end lib s = Inr e \<and> py_getitem r ''value'' = Inr v"
  shows "fetch_current_loop lib now reports
           = (case find (\<lambda>r. \<exists>e. report_end lib r = Inr e \<and> now < e) reports of
                None \<Rightarrow> Inr JNull
              | Some r \<Rightarrow> py_getitem r ''value'')"
  using assms
proof (induction reports)
  case Nil
  then show ?case by simp
next
  case (Cons r reports)
  from Cons.prems obtain s e v where r: "py_getitem r ''validTime'' = Inr (JStr s)"
    "pendulum_parse_end lib s = Inr e" "py_getitem r ''value'' = Inr v"
    by auto
  then have re: "report_end lib r = Inr e" by (simp add: report_end_def)
  from Cons have IH: "fetch_current_loop lib now reports
           = (case find (\<lambda>r. \<exists>e. report_end lib r = Inr e \<and> now < e) reports of
                None \<Rightarrow> Inr JNull
              | Some r \<Rightarrow> py_getitem r ''value'')" by simp
  show ?case by (simp add: re IH)
qed

lemma fetch_current_dict:
  "fetch_current lib now records = Inr v \<Longrightarrow> \<exists>kvs. records = JObj kvs"
  by (cases records) (simp_all add: fetch_current_def)

lemma fetch_current_py_get:
  "fetch_current lib now records = Inr v \<Longrightarrow> \<exists>uom. py_get records ''uom'' = Inr uom"
  by (auto dest: fetch_current_dict)

subsection \<open>One iteration of the loop\<close>

text \<open>
  The lookup of a descriptor's key raises \<^verbatim>\<open>KeyError\<close> exactly when the payload is a
  dictionary without \<^verbatim>\<open>properties\<close>, or its \<^verbatim>\<open>properties\<close> is a dictionary
  without the key.
\<close>

lemma measure_records_missing:
  "measure_records data m = Inl KeyError \<longleftrightarrow>
     (\<exists>kvs. data = JObj kvs
        \<and> (map_of kvs ''properties'' = None
           \<or> (\<exists>ps. map_of kvs ''properties'' = Some (JObj ps) \<and> map_of ps (measure_key m) = None)))"
proof (cases data)
  case (JObj kvs)
  show ?thesis
  proof (cases "map_of kvs ''properties''")
    case None
    with JObj show ?thesis by (simp add: measure_records_def)
  next
    case (Some p)
    with JObj show ?thesis by (cases p) (simp_all add: measure_records_def split: option.split)
  qed
qed (simp_all add: measure_records_def)

lemma measure_block_fst:
  "fst (measure_block lib now data m registry g) =
     (case measure_records data m of Inl e \<Rightarrow> Inl e | Inr records \<Rightarrow>
      case py_get records ''uom'' of Inl e \<Rightarrow> Inl e | Inr uom \<Rightarrow>
      case fetch_current lib now records of Inl e \<Rightarrow> Inl e | Inr v \<Rightarrow>
      case map_of prom_units (measure_unit m) of None \<Rightarrow> Inr registry | Some u \<Rightarrow>
        if v = JNull then Inr registry
        else gauge_set lib registry (gauge_name m u) u v)"
  by (simp add: measure_block_def Let_def case_prod_beta convert_unit_fst
      split: sum.split option.split)

lemma process_measure_fst:
  "fst (process_measure lib now data m registry g) =
     (case fst (measure_block lib now data m registry g) of
        Inr registry' \<Rightarrow> Inr registry'
      | Inl e \<Rightarrow> if e = KeyError then Inr registry else Inl e)"
  by (cases "measure_block lib now data m registry g")
     (simp add: process_measure_def Let_def split: sum.split)

lemma process_measure_indep:
  "fst (process_measure lib now data m registry g) = fst (process_measure lib now data m registry g')"
  by (simp only: process_measure_fst measure_block_fst)

lemma missing_key_step:
  "measure_records data m = Inl KeyError \<Longrightarrow>
   process_measure lib now data m registry g
     = (Inr registry, g\<lparr>FORECAST_PROCESSING_FAILURES := Suc (FORECAST_PROCESSING_FAILURES g)\<rparr>)"
  by (simp add: process_measure_def measure_block_def)



text \<open>An iteration that goes on leaves the registry as it was or adds this descriptor's gauge.\<close>

lemma process_measure_registry:
  assumes "fst (process_measure lib now data m registry g) = Inr registry'"
  shows "registry' = registry
       \<or> (\<exists>u y. map_of prom_units (measure_unit m) = Some u
              \<and> gauge_name m u \<notin> fst ` set registry
              \<and> registry' = registry @ [(gauge_name m u, y)])"
  using assms
  by (auto simp add: process_measure_fst measure_block_fst gauge_set_def
      split: sum.splits option.splits if_splits)

text \<open>A descriptor with a numeric current value and a fresh gauge name gets its gauge.\<close>

lemma numeric_value_step:
  assumes "measure_records data m = Inr records"
    and "fetch_current lib now records = Inr (JNum x)"
    and "map_of prom_units (measure_unit m) = Some u"
    and "gauge_name m u \<notin> fst ` set registry"
  shows "fst (process_measure lib now data m registry g)
           = Inr (registry @ [(gauge_name m u,
                    if measure_unit m = ''percent'' then x / 100
                    else if measure_unit m = ''mm'' then x / 1000 else x)])"
proof -
  from fetch_current_py_get[OF assms(2)] obtain uom where uom: "py_get records ''uom'' = Inr uom" ..
  show ?thesis
    using assms(4)
    by (simp add: process_measure_fst measure_block_fst assms(1,2,3) uom gauge_set_def
        prom_units_numeric[OF assms(3)])
qed

text \<open>The counter of mismatched units never goes down, and a mismatch bumps it.\<close>

lemma measure_block_mismatch_mono:
  "FORECAST_MISMATCHED_UNIT g l
     \<le> FORECAST_MISMATCHED_UNIT (snd (measure_block lib now data m registry g)) l"
  by (simp add: measure_block_def Let_def case_prod_beta convert_unit_def counter_inc_def
      split: sum.split option.split)

lemma process_measure_mismatch_mono:
  "FORECAST_MISMATCHED_UNIT g l
     \<le> FORECAST_MISMATCHED_UNIT (snd (process_measure lib now data m registry g)) l"
  using measure_block_mismatch_mono[of g l lib now data m registry]
  by (cases "measure_block lib now data m registry g")
     (simp add: process_measure_def Let_def split: sum.split)

lemma mismatch_step:
  assumes "measure_records data m = Inr records"
    and "py_get records ''uom'' = Inr uom"
    and "uom \<noteq> JStr (''unit:'' @ measure_unit m)"
  shows "FORECAST_MISMATCHED_UNIT (snd (process_measure lib now data m registry g)) (measure_key m, uom)
           = FORECAST_MISMATCHED_UNIT g (measure_key m, uom) + 1"
proof -
  have "FORECAST_MISMATCHED_UNIT (snd (measure_block lib now data m registry g)) (measure_key m, uom)
           = FORECAST_MISMATCHED_UNIT g (measure_key m, uom) + 1"
    using assms(3)
    by (simp add: measure_block_def assms(1,2) Let_def case_prod_beta convert_unit_def counter_inc_def
        split: sum.split option.split)
  then show ?thesis
    by (cases "measure_block lib now data m registry g")
       (simp add: process_measure_def Let_def split: sum.split)
qed

text \<open>An iteration touches nothing but the counters.\<close>

lemma convert_unit_frame:
  "weather_cache (snd (convert_unit u g)) = weather_cache g
   \<and> sent (snd (convert_unit u g)) = sent g
   \<and> FORECAST_LOOKUP_FAILURES (snd (convert_unit u g)) = FORECAST_LOOKUP_FAILURES g"
  by (simp add: convert_unit_def Let_def split: option.split)

lemma measure_block_frame:
  "weather_cache (snd (measure_block lib now data m registry g)) = weather_cache g
   \<and> sent (snd (measure_block lib now data m registry g)) = sent g
   \<and> FORECAST_LOOKUP_FAILURES (snd (measure_block lib now data m registry g))
       = FORECAST_LOOKUP_FAILURES g"
  by (simp add: measure_block_def Let_def case_prod_beta convert_unit_frame
      split: sum.split option.split)

lemma process_measure_frame:
  "weather_cache (snd (process_measure lib now data m registry g)) = weather_cache g
   \<and> sent (snd (process_measure lib now data m registry g)) = sent g
   \<and> FORECAST_LOOKUP_FAILURES (snd (process_measure lib now data m registry g))
       = FORECAST_LOOKUP_FAILURES g"
  using measure_block_frame[of lib now data m registry g]
  by (cases "measure_block lib now data m registry g")
     (simp add: process_measure_def Let_def split: sum.split)

subsection \<open>The loop over the descriptors\<close>

lemma for_measures_indep:
  "fst (for_measures lib data ms registry g) = fst (for_measures lib data ms registry g')"
proof (induction ms arbitrary: registry g g')
  case Nil
  show ?case by simp
next
  case (Cons x ms)
  obtain m now where x: "x = (m, now)" by (cases x)
  obtain r1 g1 where p1: "process_measure lib now data m registry g = (r1, g1)"
    by (cases "process_measure lib now data m registry g")
  obtain r2 g2 where p2: "process_measure lib now data m registry g' = (r2, g2)"
    by (cases "process_measure lib now data m registry g'")
  from process_measure_indep[of lib now data m registry g g'] p1 p2 have r: "r2 = r1" by simp
  show ?case
  proof (cases r1)
    case (Inl e)
    with x p1 p2 r show ?thesis by simp
  next
    case (Inr registry')
    with x p1 p2 r Cons.IH[of registry' g1 g2] show ?thesis by simp
  qed
qed

lemma for_measures_append:
  "for_measures lib data (ms1 @ ms2) registry g =
     (case for_measures lib data ms1 registry g of
        (Inl e, g') \<Rightarrow> (Inl e, g')
      | (Inr registry', g') \<Rightarrow> for_measures lib data ms2 registry' g')"
proof (induction ms1 arbitrary: registry g)
  case Nil
  show ?case by simp
next
  case (Cons x ms1)
  obtain m now where x: "x = (m, now)" by (cases x)
  show ?case
    by (simp add: x Cons.IH split: prod.split sum.split)
qed

lemma for_measures_fst_Cons:
  "fst (for_measures lib data ((m, now) # rest) registry g) =
     (case fst (process_measure lib now data m registry g) of
        Inl e \<Rightarrow> Inl e
      | Inr registry' \<Rightarrow> fst (for_measures lib data rest registry' g))"
proof (cases "process_measure lib now data m registry g")
  case (Pair r g')
  then show ?thesis
    by (cases r) (simp_all add: for_measures_indep[of lib data rest _ g' g])
qed


lemma for_measures_frame:
  "weather_cache (snd (for_measures lib data ms registry g)) = weather_cache g
   \<and> sent (snd (for_measures lib data ms registry g)) = sent g
   \<and> FORECAST_LOOKUP_FAILURES (snd (for_measures lib data ms registry g))
       = FORECAST_LOOKUP_FAILURES g"
proof (induction ms arbitrary: registry g)
  case Nil
  show ?case by simp
next
  case (Cons x ms)
  obtain m now where x: "x = (m, now)" by (cases x)
  obtain r g' where p: "process_measure lib now data m registry g = (r, g')"
    by (cases "process_measure lib now data m registry g")
  from process_measure_frame[of lib now data m registry g] p
  have f: "weather_cache g' = weather_cache g \<and> sent g' = sent g
      \<and> FORECAST_LOOKUP_FAILURES g' = FORECAST_LOOKUP_FAILURES g" by simp
  show ?case
  proof (cases r)
    case (Inl e)
    with x p f show ?thesis by simp
  next
    case (Inr registry')
    with x p f Cons.IH[of registry' g'] show ?thesis by simp
  qed
qed

lemma for_measures_mismatch_mono:
  "FORECAST_MISMATCHED_UNIT g l
     \<le> FORECAST_MISMATCHED_UNIT (snd (for_measures lib data ms registry g)) l"
proof (induction ms arbitrary: registry g)
  case Nil
  show ?case by simp
next
  case (Cons x ms)
  obtain m now where x: "x = (m, now)" by (cases x)
  obtain r g' where p: "process_measure lib now data m registry g = (r, g')"
    by (cases "process_measure lib now data m registry g")
  from process_measure_mismatch_mono[of g l lib now data m registry] p
  have step: "FORECAST_MISMATCHED_UNIT g l \<le> FORECAST_MISMATCHED_UNIT g' l" by simp
  show ?case
  proof (cases r)
    case (Inl e)
    with x p step show ?thesis by simp
  next
    case (Inr registry')
    from Cons.IH[of g' registry'] step
    have "FORECAST_MISMATCHED_UNIT g l
        \<le> FORECAST_MISMATCHED_UNIT (snd (for_measures lib data ms registry' g')) l"
      by (rule le_trans[rotated])
    with Inr x p show ?thesis by simp
  qed
qed

text \<open>The registry only grows, and only by gauges of the descriptors it went through.\<close>

lemma for_measures_grows:
  "fst (for_measures lib data ms registry g) = Inr report \<Longrightarrow> set registry \<subseteq> set report"
proof (induction ms arbitrary: registry g)
  case Nil
  then show ?case by simp
next
  case (Cons x ms)
  obtain m now where x: "x = (m, now)" by (cases x)
  from Cons.prems x obtain registry' where
    step: "fst (process_measure lib now data m registry g) = Inr registry'"
    and rest: "fst (for_measures lib data ms registry' g) = Inr report"
    by (auto simp add: for_measures_fst_Cons simp del: for_measures.simps split: sum.splits)
  from process_measure_registry[OF step] have "set registry \<subseteq> set registry'" by auto
  with Cons.IH[OF rest] show ?case by blast
qed

lemma for_measures_names:
  "fst (for_measures lib data ms registry g) = Inr report \<Longrightarrow> n \<in> fst ` set report \<Longrightarrow>
   n \<in> fst ` set registry
   \<or> (\<exists>m now u. (m, now) \<in> set ms \<and> map_of prom_units (measure_unit m) = Some u
         \<and> n = gauge_name m u)"
proof (induction ms arbitrary: registry g)
  case Nil
  then show ?case by simp
next
  case (Cons x ms)
  obtain m now where x: "x = (m, now)" by (cases x)
  from Cons.prems(1) x obtain registry' where
    step: "fst (process_measure lib now data m registry g) = Inr registry'"
    and rest: "fst (for_measures lib data ms registry' g) = Inr report"
    by (auto simp add: for_measures_fst_Cons simp del: for_measures.simps split: sum.splits)
  from Cons.IH[OF rest Cons.prems(2)] consider
    (old) "n \<in> fst ` set registry'"
    | (later) "\<exists>m now u. (m, now) \<in> set ms \<and> map_of prom_units (measure_unit m) = Some u
         \<and> n = gauge_name m u"
    by blast
  then show ?case
  proof cases
    case later
    then show ?thesis by auto
  next
    case old
    from process_measure_registry[OF step] show ?thesis
    proof
      assume "registry' = registry"
      with old show ?thesis by simp
    next
      assume "\<exists>u y. map_of prom_units (measure_unit m) = Some u
              \<and> gauge_name m u \<notin> fst ` set registry
              \<and> registry' = registry @ [(gauge_name m u, y)]"
      then obtain u y where u: "map_of prom_units (measure_unit m) = Some u"
        and r: "registry' = registry @ [(gauge_name m u, y)]" by blast
      from old r have "n \<in> fst ` set registry \<or> n = gauge_name m u" by auto
      then show ?thesis
      proof
        assume "n \<in> fst ` set registry"
        then show ?thesis by simp
      next
        assume "n = gauge_name m u"
        moreover have "(m, now) \<in> set (x # ms)" using x by simp
        ultimately show ?thesis using u by blast
      qed
    qed
  qed
qed

text \<open>
  A descriptor with a numeric current value, whose gauge name no earlier descriptor of
  the list can produce, has its gauge in the report of a loop that runs to its end; and
  a mismatch of its unit is counted.
\<close>

lemma for_measures_gauge_present:
  assumes "fst (for_measures lib data (ms1 @ (m, now) # ms2) [] g) = Inr report"
    and "measure_records data m = Inr records"
    and "fetch_current lib now records = Inr (JNum x)"
    and "map_of prom_units (measure_unit m) = Some u"
    and "\<And>m' now' u'. (m', now') \<in> set ms1 \<Longrightarrow> map_of prom_units (measure_unit m') = Some u'
           \<Longrightarrow> gauge_name m' u' \<noteq> gauge_name m u"
  shows "(gauge_name m u,
          if measure_unit m = ''percent'' then x / 100
          else if measure_unit m = ''mm'' then x / 1000 else x) \<in> set report"
proof -
  obtain r1 g1 where f1: "for_measures lib data ms1 [] g = (r1, g1)"
    by (cases "for_measures lib data ms1 [] g")
  from assms(1) f1 obtain reg1 where reg1: "r1 = Inr reg1"
    by (cases r1) (simp_all add: for_measures_append)
  with f1 have first: "fst (for_measures lib data ms1 [] g) = Inr reg1" by simp
  have fresh: "gauge_name m u \<notin> fst ` set reg1"
  proof
    assume "gauge_name m u \<in> fst ` set reg1"
    from for_measures_names[OF first this]
    obtain m' now' u' where "(m', now') \<in> set ms1"
      and "map_of prom_units (measure_unit m') = Some u'"
      and "gauge_name m u = gauge_name m' u'" by auto
    with assms(5)[of m' now' u'] show False by simp
  qed
  let ?y = "if measure_unit m = ''percent'' then x / 100
          else if measure_unit m = ''mm'' then x / 1000 else x"
  from numeric_value_step[OF assms(2,3,4) fresh]
  have step: "fst (process_measure lib now data m reg1 g1) = Inr (reg1 @ [(gauge_name m u, ?y)])" .
  from assms(1) f1 reg1 step
  have "fst (for_measures lib data ms2 (reg1 @ [(gauge_name m u, ?y)]) g1) = Inr report"
    by (simp add: for_measures_append for_measures_fst_Cons del: for_measures.simps)
  from for_measures_grows[OF this] show ?thesis by auto
qed

lemma for_measures_mismatch_counted:
  assumes "fst (for_measures lib data (ms1 @ (m, now) # ms2) registry g) = Inr report"
    and "measure_records data m = Inr records"
    and "py_get records ''uom'' = Inr uom"
    and "uom \<noteq> JStr (''unit:'' @ measure_unit m)"
  shows "FORECAST_MISMATCHED_UNIT g (measure_key m, uom)
           < FORECAST_MISMATCHED_UNIT
               (snd (for_measures lib data (ms1 @ (m, now) # ms2) registry g)) (measure_key m, uom)"
proof -
  let ?l = "(measure_key m, uom)"
  obtain r1 g1 where f1: "for_measures lib data ms1 registry g = (r1, g1)"
    by (cases "for_measures lib data ms1 registry g")
  from assms(1) f1 obtain reg1 where reg1: "r1 = Inr reg1"
    by (cases r1) (simp_all add: for_measures_append)
  obtain r2 g2 where p: "process_measure lib now data m reg1 g1 = (r2, g2)"
    by (cases "process_measure lib now data m reg1 g1")
  from assms(1) f1 reg1 p obtain reg2 where reg2: "r2 = Inr reg2"
    by (cases r2) (simp_all add: for_measures_append)
  have whole: "for_measures lib data (ms1 @ (m, now) # ms2) registry g
      = for_measures lib data ms2 reg2 g2"
    by (simp add: for_measures_append f1 reg1 p reg2)
  from for_measures_mismatch_mono[of g ?l lib data ms1 registry] f1
  have a: "FORECAST_MISMATCHED_UNIT g ?l \<le> FORECAST_MISMATCHED_UNIT g1 ?l" by simp
  from mismatch_step[OF assms(2,3,4), of lib now reg1 g1] p
  have b: "FORECAST_MISMATCHED_UNIT g2 ?l = FORECAST_MISMATCHED_UNIT g1 ?l + 1" by simp
  from for_measures_mismatch_mono[of g2 ?l lib data ms2 reg2]
  have c: "FORECAST_MISMATCHED_UNIT g2 ?l
      \<le> FORECAST_MISMATCHED_UNIT (snd (for_measures lib data ms2 reg2 g2)) ?l" .
  from a b c show ?thesis unfolding whole by linarith
qed

lemma for_measures_no_properties:
  assumes "py_getitem data ''properties'' = Inl KeyError"
  shows "fst (for_measures lib data ms registry g) = Inr registry"
proof (induction ms arbitrary: g)
  case Nil
  show ?case by simp
next
  case (Cons x ms)
  obtain m now where x: "x = (m, now)" by (cases x)
  have "measure_records data m = Inl KeyError" by (simp add: measure_records_def assms)
  from missing_key_step[OF this, of lib now registry g] Cons.IH x show ?case by simp
qed

subsection \<open>The catalogue\<close>

lemma zip_const:
  "length ns = length xs \<Longrightarrow> zip xs (map (\<lambda>n. t) ns) = map (\<lambda>x. (x, t)) xs"
  by (induction ns xs rule: list_induct2) simp_all

lemma catalogue_clock:
  "zip ms (map (\<lambda>n. t) [1..<Suc (length ms)]) = map (\<lambda>m. (m, t)) ms"
  by (rule zip_const) (simp del: upt_Suc)

lemma catalogue_units: "\<forall>m \<in> set measures'. map_of prom_units (measure_unit m) \<noteq> None"
  by (simp add: measures'_def prom_units_def)

lemma catalogue_gauge_names:
  "distinct (map (\<lambda>m. gauge_name m (the (map_of prom_units (measure_unit m)))) measures')"
  by (simp add: measures'_def prom_units_def gauge_name_def)

lemma catalogue_nth:
  assumes "i < length measures'"
  shows "zip measures' (map clock [1..<Suc (length measures')])
           = take i (zip measures' (map clock [1..<Suc (length measures')]))
             @ (measures' ! i, clock (Suc i))
             # drop (Suc i) (zip measures' (map clock [1..<Suc (length measures')]))"
proof -
  let ?ms = "zip measures' (map clock [1..<Suc (length measures')])"
  have len: "length ?ms = length measures'" by (simp del: upt_Suc)
  have "?ms ! i = (measures' ! i, clock (Suc i))"
    using assms by (simp del: upt_Suc)
  with id_take_nth_drop[of i ?ms] assms len show ?thesis by simp
qed

lemma catalogue_earlier:
  assumes "i < length measures'"
    and "(m', now') \<in> set (take i (zip measures' (map clock [1..<Suc (length measures')])))"
  shows "\<exists>j < i. m' = measures' ! j"
proof -
  let ?ms = "zip measures' (map clock [1..<Suc (length measures')])"
  have len: "length ?ms = length measures'" by (simp del: upt_Suc)
  from assms(2) obtain j where j: "j < length (take i ?ms)" and at: "take i ?ms ! j = (m', now')"
    by (auto simp add: in_set_conv_nth)
  from j assms(1) len have ji: "j < i" and jl: "j < length measures'" by simp_all
  from at ji jl have "?ms ! j = (m', now')" by simp
  with jl have "m' = measures' ! j" by (simp del: upt_Suc)
  with ji show ?thesis by blast
qed

subsection \<open>A request that misses the cache\<close>

lemma probe_miss_entries:
  assumes "fst (ExpiringCache_get now key c) = None"
  shows "entries (snd (ExpiringCache_get now key c)) = AList.delete key (entries c)"
proof (cases "map_of (entries c) key")
  case None
  then have "key \<notin> fst ` set (entries c)" by (simp add: map_of_eq_None_iff)
  then have "AList.delete key (entries c) = entries c" by (rule delete_absent)
  with None show ?thesis by (simp add: ExpiringCache_get_def)
next
  case (Some r)
  with assms show ?thesis by (simp add: ExpiringCache_get_def delitem_def split: if_splits)
qed

lemma probe_write_count:
  "metric_cache_write (snd (ExpiringCache_get now key c)) = metric_cache_write c"
  by (simp add: ExpiringCache_get_def split: option.split)

lemma get_weather_miss:
  assumes "fst (ExpiringCache_get (clock 0) location (weather_cache g)) = None"
    and "requests_get_json outcome = Inr data"
    and "fst (for_measures lib data (zip measures' (map clock [1..<Suc (length measures')])) []
               (g\<lparr>weather_cache := snd (ExpiringCache_get (clock 0) location (weather_cache g)),
                  sent := Gridpoints location # sent g\<rparr>)) = Inr registry"
    and "fst (ExpiringCache_insert (clock (Suc (length measures'))) location registry
               (snd (ExpiringCache_get (clock 0) location (weather_cache g)))) = Inr ()"
  shows "fst (get_weather lib clock outcome location g) = Inr registry
       \<and> weather_cache (snd (get_weather lib clock outcome location g))
           = snd (ExpiringCache_insert (clock (Suc (length measures'))) location registry
               (snd (ExpiringCache_get (clock 0) location (weather_cache g))))
       \<and> sent (snd (get_weather lib clock outcome location g)) = Gridpoints location # sent g
       \<and> FORECAST_LOOKUP_FAILURES (snd (get_weather lib clock outcome location g))
           = FORECAST_LOOKUP_FAILURES g"
proof -
  obtain c where probe: "ExpiringCache_get (clock 0) location (weather_cache g) = (None, c)"
    using assms(1) by (cases "ExpiringCache_get (clock 0) location (weather_cache g)") simp
  then have c: "snd (ExpiringCache_get (clock 0) location (weather_cache g)) = c" by simp
  let ?g1 = "g\<lparr>weather_cache := c, sent := Gridpoints location # sent g\<rparr>"
  let ?ms = "zip measures' (map clock [1..<Suc (length measures')])"
  obtain g2 where run: "for_measures lib data ?ms [] ?g1 = (Inr registry, g2)"
    using assms(3) unfolding c by (cases "for_measures lib data ?ms [] ?g1") simp
  from for_measures_frame[of lib data ?ms "[]" ?g1] run
  have g2: "weather_cache g2 = c" "sent g2 = Gridpoints location # sent g"
    "FORECAST_LOOKUP_FAILURES g2 = FORECAST_LOOKUP_FAILURES g" by simp_all
  obtain c2 where ins: "ExpiringCache_insert (clock (Suc (length measures'))) location registry c
      = (Inr (), c2)"
    using assms(4) unfolding c
    by (cases "ExpiringCache_insert (clock (Suc (length measures'))) location registry c") simp
  have "get_weather lib clock outcome location g = (Inr registry, g2\<lparr>weather_cache := c2\<rparr>)"
    using run by (simp add: get_weather_def probe assms(2) Let_def g2(1) ins del: upt_Suc)
  with g2 ins show ?thesis unfolding c by simp
qed

text \<open>
  Conversely, the report of such a request is the registry the loop built, and the
  insertion leaves the counters of the module as the loop left them.
\<close>

lemma get_weather_miss_loop:
  assumes "fst (ExpiringCache_get (clock 0) location (weather_cache g)) = None"
    and "requests_get_json outcome = Inr data"
    and "fst (get_weather lib clock outcome location g) = Inr report"
  shows "fst (for_measures lib data (zip measures' (map clock [1..<Suc (length measures')])) []
               (g\<lparr>weather_cache := snd (ExpiringCache_get (clock 0) location (weather_cache g)),
                  sent := Gridpoints location # sent g\<rparr>)) = Inr report
       \<and> FORECAST_MISMATCHED_UNIT (snd (get_weather lib clock outcome location g))
           = FORECAST_MISMATCHED_UNIT
               (snd (for_measures lib data (zip measures' (map clock [1..<Suc (length measures')])) []
                 (g\<lparr>weather_cache := snd (ExpiringCache_get (clock 0) location (weather_cache g)),
                    sent := Gridpoints location # sent g\<rparr>)))"
proof -
  obtain c where probe: "ExpiringCache_get (clock 0) location (weather_cache g) = (None, c)"
    using assms(1) by (cases "ExpiringCache_get (clock 0) location (weather_cache g)") simp
  then have c: "snd (ExpiringCache_get (clock 0) location (weather_cache g)) = c" by simp
  let ?g1 = "g\<lparr>weather_cache := c, sent := Gridpoints location # sent g\<rparr>"
  let ?ms = "zip measures' (map clock [1..<Suc (length measures')])"
  obtain r g2 where run: "for_measures lib data ?ms [] ?g1 = (r, g2)"
    by (cases "for_measures lib data ?ms [] ?g1")
  have gw: "get_weather lib clock outcome location g =
      (case r of
         Inl e \<Rightarrow> (Inl e, g2)
       | Inr registry \<Rightarrow>
           (case ExpiringCache_insert (clock (Suc (length measures'))) location registry
                   (weather_cache g2) of
              (Inl e, c2) \<Rightarrow> (Inl e, g2\<lparr>weather_cache := c2\<rparr>)
            | (Inr _, c2) \<Rightarrow> (Inr registry, g2\<lparr>weather_cache := c2\<rparr>)))"
    using run by (simp add: get_weather_def probe assms(2) Let_def del: upt_Suc split: sum.split)
  from assms(3) obtain registry where r: "r = Inr registry"
    unfolding gw by (cases r) simp_all
  obtain r2 c2 where ins: "ExpiringCache_insert (clock (Suc (length measures'))) location registry
      (weather_cache g2) = (r2, c2)"
    by (cases "ExpiringCache_insert (clock (Suc (length measures'))) location registry
      (weather_cache g2)")
  from assms(3) have "registry = report \<and> (\<exists>u. r2 = Inr u)"
    unfolding gw r by (cases r2) (simp_all add: ins)
  then show ?thesis
    unfolding c gw r using run r ins by (cases r2) simp_all
qed

subsection \<open>The example forecast, end to end\<close>

lemma example_loop:
  "fst (for_measures example_lib example_forecast (map (\<lambda>m. (m, example_now)) measures') [] g)
     = Inr [(''weather_dewpoint_celsius'', 2), (''weather_relative_humidity_ratio'', 1/2)]"
  by (simp add: measures'_def for_measures_fst_Cons process_measure_fst measure_block_fst
      measure_records_def fetch_current_def report_end_def prom_units_def gauge_set_def
      gauge_name_def example_eval
      del: for_measures.simps(2))

text \<open>
  A request for the example forecast on a fresh module: the report has the dew point and
  the humidity (converted as a percentage, whatever unit the payload declared), and no
  gauge for the missing temperature, the ended wind speed or any other descriptor; the
  report is stored under the location and one request went out.
\<close>

lemma example_report:
  "fst (get_weather example_lib (\<lambda>n. example_now) (Response 200 (Some example_forecast))
          example_location globals_init)
     = Inr [(''weather_dewpoint_celsius'', 2), (''weather_relative_humidity_ratio'', 1/2)]
   \<and> map fst (entries (weather_cache
        (snd (get_weather example_lib (\<lambda>n. example_now) (Response 200 (Some example_forecast))
          example_location globals_init)))) = [example_location]
   \<and> sent (snd (get_weather example_lib (\<lambda>n. example_now) (Response 200 (Some example_forecast))
          example_location globals_init)) = [Gridpoints example_location]"
proof -
  have probe: "fst (ExpiringCache_get ((\<lambda>n. example_now) (0::nat)) example_location
      (weather_cache globals_init)) = None"
    by (simp add: globals_init_def cache_eval)
  have body: "requests_get_json (Response 200 (Some example_forecast)) = Inr example_forecast"
    by simp
  have loop: "fst (for_measures example_lib example_forecast
      (zip measures' (map (\<lambda>n. example_now) [1..<Suc (length measures')])) []
      (globals_init\<lparr>weather_cache :=
          snd (ExpiringCache_get ((\<lambda>n. example_now) (0::nat)) example_location
                (weather_cache globals_init)),
        sent := Gridpoints example_location # sent globals_init\<rparr>))
     = Inr [(''weather_dewpoint_celsius'', 2), (''weather_relative_humidity_ratio'', 1/2)]"
    unfolding catalogue_clock by (rule example_loop)
  have ins: "fst (ExpiringCache_insert ((\<lambda>n. example_now) (Suc (length measures'))) example_location
      [(''weather_dewpoint_celsius'', 2), (''weather_relative_humidity_ratio'', 1/2)]
      (snd (ExpiringCache_get ((\<lambda>n. example_now) (0::nat)) example_location
             (weather_cache globals_init)))) = Inr ()"
    by (simp add: globals_init_def cache_eval)
  have stored: "map fst (entries (snd (ExpiringCache_insert ((\<lambda>n. example_now) (Suc (length measures')))
      example_location
      [(''weather_dewpoint_celsius'', 2), (''weather_relative_humidity_ratio'', 1/2)]
      (snd (ExpiringCache_get ((\<lambda>n. example_now) (0::nat)) example_location
             (weather_cache globals_init)))))) = [example_location]"
    by (simp add: globals_init_def cache_eval)
  have none_sent: "sent globals_init = []" by (simp add: globals_init_def)
  from get_weather_miss [OF probe body loop ins] stored none_sent show ?thesis by simp
qed

subsection \<open>The grid lookup\<close>

lemma gridpoint_fields_missing:
  assumes "map_of kvs ''properties'' = None
         \<or> (\<exists>ps. map_of kvs ''properties'' = Some (JObj ps)
                \<and> (map_of ps ''cwa'' = None \<or> map_of ps ''gridX'' = None \<or> map_of ps ''gridY'' = None))"
  shows "gridpoint_fields (JObj kvs) = Inl KeyError"
  using assms by (auto simp add: gridpoint_fields_def split: option.split)

lemma wrapped_fetch_error:
  "requests_get_json outcome = Inl e \<Longrightarrow>
   get_gridpoint_location_wrapped outcome latlong g
     = (Inl e, g\<lparr>sent := Points latlong # sent g,
                  GRIDPOINT_LOOKUP_FAILURES := Suc (GRIDPOINT_LOOKUP_FAILURES g)\<rparr>)"
  by (simp add: get_gridpoint_location_wrapped_def Let_def)

lemma wrapped_missing_fields:
  "requests_get_json outcome = Inr data \<Longrightarrow> gridpoint_fields data = Inl KeyError \<Longrightarrow>
   get_gridpoint_location_wrapped outcome latlong g
     = (Inr None, g\<lparr>sent := Points latlong # sent g,
                    GRIDPOINT_LOOKUP_FAILURES := Suc (GRIDPOINT_LOOKUP_FAILURES g)\<rparr>)"
  by (simp add: get_gridpoint_location_wrapped_def Let_def)

lemma lru_fetch_error:
  "map_of (lru g) latlong = None \<Longrightarrow> requests_get_json outcome = Inl e \<Longrightarrow>
   get_gridpoint_location outcome latlong g
     = (Inl e, g\<lparr>sent := Points latlong # sent g,
                  GRIDPOINT_LOOKUP_FAILURES := Suc (GRIDPOINT_LOOKUP_FAILURES g)\<rparr>)"
  by (simp add: get_gridpoint_location_def wrapped_fetch_error)

lemma lru_missing_fields:
  "map_of (lru g) latlong = None \<Longrightarrow> requests_get_json outcome = Inr data \<Longrightarrow>
   gridpoint_fields data = Inl KeyError \<Longrightarrow>
   get_gridpoint_location outcome latlong g
     = (Inr None, g\<lparr>sent := Points latlong # sent g,
                    GRIDPOINT_LOOKUP_FAILURES := Suc (GRIDPOINT_LOOKUP_FAILURES g),
                    lru := take 65536 ((latlong, None) # lru g)\<rparr>)"
  by (simp add: get_gridpoint_location_def wrapped_missing_fields)

lemma lru_hit:
  "map_of (lru g) latlong = Some result \<Longrightarrow>
   get_gridpoint_location outcome latlong g
     = (Inr result, g\<lparr>lru := (latlong, result) # AList.delete latlong (lru g)\<rparr>)"
  by (simp add: get_gridpoint_location_def)

lemma lru_sends:
  "map_of (lru g) latlong = None \<Longrightarrow>
   sent (snd (get_gridpoint_location outcome latlong g)) = Points latlong # sent g"
  by (simp add: get_gridpoint_location_def get_gridpoint_location_wrapped_def Let_def
      split: sum.split prod.split)

lemmas gridpoint_eval =
  get_gridpoint_location_def get_gridpoint_location_wrapped_def gridpoint_fields_def
  globals_init_def Let_def

section \<open>The grid resolver\<close>

text \<open>
  C5, as the code has it. For a coordinate pair that is not in the decorator's table:
  when the fetch raises (no response, or a body that is no JSON), the lookup failure is
  counted and the exception leaves \<^verbatim>\<open>get_gridpoint_location\<close> instead of an absent
  result; nothing is stored, so the same request made again goes to the remote API
  again. When the document is a dictionary without \<^verbatim>\<open>properties\<close>, or its
  \<^verbatim>\<open>properties\<close> lacks \<^verbatim>\<open>cwa\<close>, \<^verbatim>\<open>gridX\<close> or \<^verbatim>\<open>gridY\<close>, the lookup failure is
  counted and the result is absent; this absent result is stored by the decorator, so the
  same request made again returns absent without any fetch and without another count,
  whatever the remote API would answer.
\<close>

theorem gridpoint_lookup_failure:
  "(map_of (lru g) latlong = None \<and> requests_get_json outcome = Inl e \<longrightarrow>
      fst (get_gridpoint_location outcome latlong g) = Inl e
    \<and> GRIDPOINT_LOOKUP_FAILURES (snd (get_gridpoint_location outcome latlong g))
        = GRIDPOINT_LOOKUP_FAILURES g + 1
    \<and> lru (snd (get_gridpoint_location outcome latlong g)) = lru g
    \<and> sent (snd (get_gridpoint_location outcome latlong g)) = Points latlong # sent g
    \<and> sent (snd (get_gridpoint_location outcome' latlong
                    (snd (get_gridpoint_location outcome latlong g))))
        = Points latlong # Points latlong # sent g)
   \<and> (map_of (lru g) latlong = None \<and> requests_get_json outcome = Inr (JObj kvs)
       \<and> (map_of kvs ''properties'' = None
          \<or> (\<exists>ps. map_of kvs ''properties'' = Some (JObj ps)
                \<and> (map_of ps ''cwa'' = None \<or> map_of ps ''gridX'' = None \<or> map_of ps ''gridY'' = None)))
      \<longrightarrow>
      fst (get_gridpoint_location outcome latlong g) = Inr None
    \<and> GRIDPOINT_LOOKUP_FAILURES (snd (get_gridpoint_location outcome latlong g))
        = GRIDPOINT_LOOKUP_FAILURES g + 1
    \<and> sent (snd (get_gridpoint_location outcome latlong g)) = Points latlong # sent g
    \<and> map_of (lru (snd (get_gridpoint_location outcome latlong g))) latlong = Some None
    \<and> fst (get_gridpoint_location outcome' latlong
              (snd (get_gridpoint_location outcome latlong g))) = Inr None
    \<and> sent (snd (get_gridpoint_location outcome' latlong
                    (snd (get_gridpoint_location outcome latlong g))))
        = Points latlong # sent g
    \<and> GRIDPOINT_LOOKUP_FAILURES (snd (get_gridpoint_location outcome' latlong
                    (snd (get_gridpoint_location outcome latlong g))))
        = GRIDPOINT_LOOKUP_FAILURES g + 1)"
proof (intro conjI impI)
  assume a: "map_of (lru g) latlong = None \<and> requests_get_json outcome = Inl e"
  then have eq: "get_gridpoint_location outcome latlong g
     = (Inl e, g\<lparr>sent := Points latlong # sent g,
                  GRIDPOINT_LOOKUP_FAILURES := Suc (GRIDPOINT_LOOKUP_FAILURES g)\<rparr>)"
    by (simp add: lru_fetch_error)
  show "fst (get_gridpoint_location outcome latlong g) = Inl e"
    and "GRIDPOINT_LOOKUP_FAILURES (snd (get_gridpoint_location outcome latlong g))
        = GRIDPOINT_LOOKUP_FAILURES g + 1"
    and "lru (snd (get_gridpoint_location outcome latlong g)) = lru g"
    and "sent (snd (get_gridpoint_location outcome latlong g)) = Points latlong # sent g"
    by (simp_all add: eq)
  from a show "sent (snd (get_gridpoint_location outcome' latlong
                    (snd (get_gridpoint_location outcome latlong g))))
        = Points latlong # Points latlong # sent g"
    unfolding eq by (simp add: lru_sends)
next
  assume a: "map_of (lru g) latlong = None \<and> requests_get_json outcome = Inr (JObj kvs)
       \<and> (map_of kvs ''properties'' = None
          \<or> (\<exists>ps. map_of kvs ''properties'' = Some (JObj ps)
                \<and> (map_of ps ''cwa'' = None \<or> map_of ps ''gridX'' = None \<or> map_of ps ''gridY'' = None)))"
  then have "gridpoint_fields (JObj kvs) = Inl KeyError"
    using gridpoint_fields_missing[of kvs] by blast
  with a have eq: "get_gridpoint_location outcome latlong g
     = (Inr None, g\<lparr>sent := Points latlong # sent g,
                    GRIDPOINT_LOOKUP_FAILURES := Suc (GRIDPOINT_LOOKUP_FAILURES g),
                    lru := take 65536 ((latlong, None) # lru g)\<rparr>)"
    by (simp add: lru_missing_fields)
  let ?g1 = "g\<lparr>sent := Points latlong # sent g,
                    GRIDPOINT_LOOKUP_FAILURES := Suc (GRIDPOINT_LOOKUP_FAILURES g),
                    lru := take 65536 ((latlong, None) # lru g)\<rparr>"
  have memo: "map_of (lru ?g1) latlong = Some None" by simp
  show "fst (get_gridpoint_location outcome latlong g) = Inr None"
    and "GRIDPOINT_LOOKUP_FAILURES (snd (get_gridpoint_location outcome latlong g))
        = GRIDPOINT_LOOKUP_FAILURES g + 1"
    and "sent (snd (get_gridpoint_location outcome latlong g)) = Points latlong # sent g"
    and "map_of (lru (snd (get_gridpoint_location outcome latlong g))) latlong = Some None"
    by (simp_all add: eq)
  show "fst (get_gridpoint_location outcome' latlong
              (snd (get_gridpoint_location outcome latlong g))) = Inr None"
    and "sent (snd (get_gridpoint_location outcome' latlong
                    (snd (get_gridpoint_location outcome latlong g))))
        = Points latlong # sent g"
    and "GRIDPOINT_LOOKUP_FAILURES (snd (get_gridpoint_location outcome' latlong
                    (snd (get_gridpoint_location outcome latlong g))))
        = GRIDPOINT_LOOKUP_FAILURES g + 1"
    unfolding eq snd_conv lru_hit[OF memo] by simp_all
qed

theorem gridpoint_lookup_failure_witness:
  "map_of (lru globals_init) example_latlong = None
   \<and> requests_get_json NoResponse = Inl RequestException
   \<and> fst (get_gridpoint_location NoResponse example_latlong globals_init) = Inl RequestException
   \<and> GRIDPOINT_LOOKUP_FAILURES (snd (get_gridpoint_location NoResponse example_latlong globals_init)) = 1
   \<and> sent (snd (get_gridpoint_location (Response 200 (Some example_points)) example_latlong
        (snd (get_gridpoint_location NoResponse example_latlong globals_init))))
       = [Points example_latlong, Points example_latlong]
   \<and> requests_get_json (Response 404 (Some (example_problem 404))) = Inr (example_problem 404)
   \<and> fst (get_gridpoint_location (Response 404 (Some (example_problem 404))) example_latlong
        globals_init) = Inr None
   \<and> GRIDPOINT_LOOKUP_FAILURES (snd (get_gridpoint_location (Response 404 (Some (example_problem 404)))
        example_latlong globals_init)) = 1
   \<and> fst (get_gridpoint_location (Response 200 (Some example_points)) example_latlong
        (snd (get_gridpoint_location (Response 404 (Some (example_problem 404))) example_latlong
           globals_init))) = Inr None
   \<and> sent (snd (get_gridpoint_location (Response 200 (Some example_points)) example_latlong
        (snd (get_gridpoint_location (Response 404 (Some (example_problem 404))) example_latlong
           globals_init)))) = [Points example_latlong]"
proof -
  have start: "map_of (lru globals_init) example_latlong = None
      \<and> sent globals_init = [] \<and> GRIDPOINT_LOOKUP_FAILURES globals_init = 0"
    by (simp add: globals_init_def)
  have raises: "requests_get_json NoResponse = Inl RequestException" by simp
  have problem: "requests_get_json (Response 404 (Some (example_problem 404)))
      = Inr (JObj [(''title'', JStr ''Error''), (''status'', JNum (real 404))])
      \<and> example_problem 404 = JObj [(''title'', JStr ''Error''), (''status'', JNum (real 404))]
      \<and> map_of [(''title'', JStr ''Error''), (''status'', JNum (real 404))] ''properties'' = None"
    by (simp add: example_problem_def)
  show ?thesis
    using start raises problem
      gridpoint_lookup_failure [where g = globals_init and latlong = example_latlong
        and outcome = NoResponse and e = RequestException
        and outcome' = "Response 200 (Some example_points)"]
      gridpoint_lookup_failure [where g = globals_init and latlong = example_latlong
        and outcome = "Response 404 (Some (example_problem 404))"
        and kvs = "[(''title'', JStr ''Error''), (''status'', JNum (real 404))]"
        and outcome' = "Response 200 (Some example_points)"]
    by simp
qed

text \<open>
  On a fresh module: with no response the call raises instead of returning absent; and
  after a 404 answer without \<^verbatim>\<open>properties\<close> returned absent, the same coordinates
  return absent again although the remote API would now answer with a grid point (the
  answer that yields the location when asked first), and only one request went out.
\<close>

theorem gridpoint_failure_raises_or_is_memoized:
  "fst (get_gridpoint_location NoResponse example_latlong globals_init) = Inl RequestException
   \<and> fst (get_gridpoint_location (Response 200 (Some example_points)) example_latlong globals_init)
       = Inr (Some example_location)
   \<and> fst (get_gridpoint_location (Response 404 (Some (example_problem 404))) example_latlong
        globals_init) = Inr None
   \<and> fst (get_gridpoint_location (Response 200 (Some example_points)) example_latlong
        (snd (get_gridpoint_location (Response 404 (Some (example_problem 404))) example_latlong
           globals_init))) = Inr None
   \<and> sent (snd (get_gridpoint_location (Response 200 (Some example_points)) example_latlong
        (snd (get_gridpoint_location (Response 404 (Some (example_problem 404))) example_latlong
           globals_init)))) = [Points example_latlong]"
  by (simp add: gridpoint_eval example_eval)

section \<open>The forecast pipeline\<close>

subsection \<open>A failed fetch\<close>

text \<open>
  C6, as the code has it. When the probe of the cache misses and the fetch raises (no
  response, or a body that is no JSON, whatever the status code), \<^verbatim>\<open>get_weather\<close>
  counts a forecast lookup failure and lets the exception pass; exactly one request went
  out, and nothing is inserted: the cache is as the probe left it, so the write counter
  is unchanged and the entries are those from before without the probed key (which the
  probe removes when its entry had expired).
\<close>

theorem fetch_failure_propagates:
  assumes "fst (ExpiringCache_get (clock 0) location (weather_cache g)) = None"
    and "requests_get_json outcome = Inl e"
  shows "fst (get_weather lib clock outcome location g) = Inl e
       \<and> FORECAST_LOOKUP_FAILURES (snd (get_weather lib clock outcome location g))
           = FORECAST_LOOKUP_FAILURES g + 1
       \<and> sent (snd (get_weather lib clock outcome location g)) = Gridpoints location # sent g
       \<and> weather_cache (snd (get_weather lib clock outcome location g))
           = snd (ExpiringCache_get (clock 0) location (weather_cache g))
       \<and> entries (weather_cache (snd (get_weather lib clock outcome location g)))
           = AList.delete location (entries (weather_cache g))
       \<and> map_of (entries (weather_cache (snd (get_weather lib clock outcome location g)))) location
           = None
       \<and> metric_cache_write (weather_cache (snd (get_weather lib clock outcome location g)))
           = metric_cache_write (weather_cache g)"
proof -
  obtain c where probe: "ExpiringCache_get (clock 0) location (weather_cache g) = (None, c)"
    using assms(1) by (cases "ExpiringCache_get (clock 0) location (weather_cache g)") simp
  have gw: "get_weather lib clock outcome location g
      = (Inl e, g\<lparr>weather_cache := c, sent := Gridpoints location # sent g,
                   FORECAST_LOOKUP_FAILURES := Suc (FORECAST_LOOKUP_FAILURES g)\<rparr>)"
    by (simp add: get_weather_def probe assms(2) Let_def)
  have c: "c = snd (ExpiringCache_get (clock 0) location (weather_cache g))"
    by (simp add: probe)
  have es: "entries c = AList.delete location (entries (weather_cache g))"
    unfolding c by (rule probe_miss_entries[OF assms(1)])
  have wr: "metric_cache_write c = metric_cache_write (weather_cache g)"
    unfolding c by (rule probe_write_count)
  show ?thesis
    unfolding gw using c es wr by (simp add: map_of_delete)
qed

theorem fetch_failure_propagates_witness:
  "fst (ExpiringCache_get 0 example_location (weather_cache globals_init)) = None
   \<and> requests_get_json NoResponse = Inl RequestException
   \<and> fst (get_weather example_lib (\<lambda>n. 0) NoResponse example_location globals_init)
       = Inl RequestException
   \<and> FORECAST_LOOKUP_FAILURES
        (snd (get_weather example_lib (\<lambda>n. 0) NoResponse example_location globals_init)) = 1
   \<and> sent (snd (get_weather example_lib (\<lambda>n. 0) NoResponse example_location globals_init))
       = [Gridpoints example_location]
   \<and> entries (weather_cache
        (snd (get_weather example_lib (\<lambda>n. 0) NoResponse example_location globals_init))) = []"
proof -
  have probe: "fst (ExpiringCache_get ((\<lambda>n. 0) (0::nat)) example_location (weather_cache globals_init))
      = None"
    by (simp add: globals_init_def cache_eval)
  have raises: "requests_get_json NoResponse = Inl RequestException" by simp
  have start: "FORECAST_LOOKUP_FAILURES globals_init = 0 \<and> sent globals_init = []
      \<and> entries (weather_cache globals_init) = []
      \<and> entries (snd (ExpiringCache_get 0 example_location (weather_cache globals_init))) = []"
    by (simp add: globals_init_def cache_eval)
  show ?thesis
    using probe raises start
      fetch_failure_propagates [OF probe raises, of example_lib]
    by simp
qed

text \<open>
  A 503 answer whose body is a JSON problem document is no failure to the code: on a
  fresh module the request returns an empty report, counts no lookup failure and stores
  the empty report under the location for five minutes. And a failed request does change
  the entries when the probe finds an expired one: the same location asked again after
  the entry's expiry, with no response from the remote API, raises and leaves the cache
  empty where it held one entry.
\<close>

theorem error_status_is_cached_and_probe_purges:
  "fst (get_weather example_lib (\<lambda>n. 0) (Response 503 (Some (example_problem 503)))
          example_location globals_init) = Inr []
   \<and> FORECAST_LOOKUP_FAILURES
        (snd (get_weather example_lib (\<lambda>n. 0) (Response 503 (Some (example_problem 503)))
          example_location globals_init)) = 0
   \<and> entries (weather_cache
        (snd (get_weather example_lib (\<lambda>n. 0) (Response 503 (Some (example_problem 503)))
          example_location globals_init)))
       = [(example_location, \<lparr>validity = 300000000, value' = []\<rparr>)]
   \<and> fst (get_weather example_lib (\<lambda>n. 300000001) NoResponse example_location
        (snd (get_weather example_lib (\<lambda>n. 0) (Response 503 (Some (example_problem 503)))
          example_location globals_init))) = Inl RequestException
   \<and> entries (weather_cache
        (snd (get_weather example_lib (\<lambda>n. 300000001) NoResponse example_location
          (snd (get_weather example_lib (\<lambda>n. 0) (Response 503 (Some (example_problem 503)))
            example_location globals_init))))) = []"
proof -
  let ?data = "example_problem 503"
  let ?ms = "zip measures' (map (\<lambda>n. 0::int) [1..<Suc (length measures')])"
  let ?g1 = "globals_init\<lparr>weather_cache := snd (ExpiringCache_get 0 example_location weather_cache_init),
      sent := [Gridpoints example_location]\<rparr>"
  have noprops: "py_getitem ?data ''properties'' = Inl KeyError"
    by (simp add: example_problem_def)
  note loop = for_measures_no_properties [OF noprops, of example_lib ?ms "[]" ?g1]
  note frame = for_measures_frame [of example_lib ?data ?ms "[]" ?g1]
  obtain g2 where run: "for_measures example_lib ?data ?ms [] ?g1 = (Inr [], g2)"
    using loop by (cases "for_measures example_lib ?data ?ms [] ?g1") simp
  from frame run have g2: "weather_cache g2 = snd (ExpiringCache_get 0 example_location weather_cache_init)"
    "FORECAST_LOOKUP_FAILURES g2 = 0"
    by (simp_all add: globals_init_def)
  have first: "get_weather example_lib (\<lambda>n. 0) (Response 503 (Some ?data)) example_location globals_init
     = (Inr [], g2\<lparr>weather_cache :=
          snd (ExpiringCache_insert 0 example_location []
                (snd (ExpiringCache_get 0 example_location weather_cache_init)))\<rparr>)"
    using run g2
    by (simp add: get_weather_def globals_init_def Let_def, simp add: cache_eval)
  show ?thesis
    unfolding first using g2 by (simp add: get_weather_def Let_def cache_eval)
qed

subsection \<open>Failures of a single measurement\<close>



subsection \<open>A unit that differs from the expected one\<close>

text \<open>
  C8. Take the \<open>i\<close>-th descriptor of the catalogue and a request that misses the
  cache and fetches a document. If the payload's entry for the descriptor declares a
  unit other than \<^verbatim>\<open>unit:\<close> followed by the descriptor's unit, and the entry's current
  value is a number \<open>x\<close>, then a report that \<^verbatim>\<open>get_weather\<close> returns holds the
  descriptor's gauge, named after the conversion of the descriptor's own unit and set to
  \<open>x\<close> converted by that conversion (a hundredth for percent, a thousandth for
  millimetres, \<open>x\<close> itself otherwise); and the counter of mismatched units for the
  descriptor's key and the declared unit has grown.
\<close>

theorem unit_mismatch_still_converts:
  assumes "i < length measures'"
    and "fst (ExpiringCache_get (clock 0) location (weather_cache g)) = None"
    and "requests_get_json outcome = Inr data"
    and "measure_records data (measures' ! i) = Inr records"
    and "py_get records ''uom'' = Inr uom"
    and "uom \<noteq> JStr (''unit:'' @ measure_unit (measures' ! i))"
    and "fetch_current lib (clock (Suc i)) records = Inr (JNum x)"
    and "fst (get_weather lib clock outcome location g) = Inr report"
  shows "(\<exists>u. fst (convert_unit (measure_unit (measures' ! i)) g) = Some u
            \<and> (gauge_name (measures' ! i) u,
                if measure_unit (measures' ! i) = ''percent'' then x / 100
                else if measure_unit (measures' ! i) = ''mm'' then x / 1000 else x) \<in> set report)
       \<and> FORECAST_MISMATCHED_UNIT g (measure_key (measures' ! i), uom)
           < FORECAST_MISMATCHED_UNIT (snd (get_weather lib clock outcome location g))
               (measure_key (measures' ! i), uom)"
proof -
  let ?m = "measures' ! i"
  let ?ms = "zip measures' (map clock [1..<Suc (length measures')])"
  let ?g1 = "g\<lparr>weather_cache := snd (ExpiringCache_get (clock 0) location (weather_cache g)),
      sent := Gridpoints location # sent g\<rparr>"
  let ?f = "\<lambda>m. gauge_name m (the (map_of prom_units (measure_unit m)))"
  from get_weather_miss_loop[OF assms(2,3,8)]
  have loop: "fst (for_measures lib data ?ms [] ?g1) = Inr report"
    and counters: "FORECAST_MISMATCHED_UNIT (snd (get_weather lib clock outcome location g))
      = FORECAST_MISMATCHED_UNIT (snd (for_measures lib data ?ms [] ?g1))"
    by blast+
  from assms(1) have "?m \<in> set measures'" by simp
  with catalogue_units obtain u where u: "map_of prom_units (measure_unit ?m) = Some u" by blast
  note split = catalogue_nth[OF assms(1), of clock]
  have loop': "fst (for_measures lib data
      (take i ?ms @ (?m, clock (Suc i)) # drop (Suc i) ?ms) [] ?g1) = Inr report"
    by (subst split[symmetric]) (rule loop)
  have fresh: "gauge_name m' u' \<noteq> gauge_name ?m u"
    if "(m', now') \<in> set (take i ?ms)" and "map_of prom_units (measure_unit m') = Some u'"
    for m' now' u'
  proof -
    from catalogue_earlier[OF assms(1) that(1)] obtain j where j: "j < i" "m' = measures' ! j"
      by blast
    have d: "distinct (map ?f measures')" by (rule catalogue_gauge_names)
    from j(1) assms(1) have lj: "j < length (map ?f measures')" and li: "i < length (map ?f measures')"
      by simp_all
    from nth_eq_iff_index_eq[OF d lj li] j(1) have "map ?f measures' ! j \<noteq> map ?f measures' ! i"
      by simp
    with lj li have "?f (measures' ! j) \<noteq> ?f (measures' ! i)" by simp
    with j(2) that(2) u show ?thesis by simp
  qed
  have present: "(gauge_name ?m u,
      if measure_unit ?m = ''percent'' then x / 100
      else if measure_unit ?m = ''mm'' then x / 1000 else x) \<in> set report"
  proof (rule for_measures_gauge_present[OF loop' assms(4,7) u])
    fix m' now' u'
    assume "(m', now') \<in> set (take i ?ms)" and "map_of prom_units (measure_unit m') = Some u'"
    then show "gauge_name m' u' \<noteq> gauge_name ?m u" by (rule fresh)
  qed
  from for_measures_mismatch_counted[OF loop' assms(4,5,6)]
  have "FORECAST_MISMATCHED_UNIT ?g1 (measure_key ?m, uom)
      < FORECAST_MISMATCHED_UNIT (snd (for_measures lib data
          (take i ?ms @ (?m, clock (Suc i)) # drop (Suc i) ?ms) [] ?g1)) (measure_key ?m, uom)" .
  then have "FORECAST_MISMATCHED_UNIT ?g1 (measure_key ?m, uom)
      < FORECAST_MISMATCHED_UNIT (snd (for_measures lib data ?ms [] ?g1)) (measure_key ?m, uom)"
    by (subst (asm) split[symmetric])
  then have counted: "FORECAST_MISMATCHED_UNIT g (measure_key ?m, uom)
      < FORECAST_MISMATCHED_UNIT (snd (get_weather lib clock outcome location g))
          (measure_key ?m, uom)"
    by (simp add: counters)
  from u have "fst (convert_unit (measure_unit ?m) g) = Some u" by (simp add: convert_unit_fst)
  with present counted show ?thesis by blast
qed

theorem unit_mismatch_still_converts_witness:
  "(4::nat) < length measures'
   \<and> fst (ExpiringCache_get example_now example_location (weather_cache globals_init)) = None
   \<and> requests_get_json (Response 200 (Some example_forecast)) = Inr example_forecast
   \<and> measure_records example_forecast (measures' ! 4) = Inr (series ''unit:degC'' [current (JNum 50)])
   \<and> py_get (series ''unit:degC'' [current (JNum 50)]) ''uom'' = Inr (JStr ''unit:degC'')
   \<and> JStr ''unit:degC'' \<noteq> JStr (''unit:'' @ measure_unit (measures' ! 4))
   \<and> fetch_current example_lib example_now (series ''unit:degC'' [current (JNum 50)]) = Inr (JNum 50)
   \<and> fst (get_weather example_lib (\<lambda>n. example_now) (Response 200 (Some example_forecast))
        example_location globals_init)
     = Inr [(''weather_dewpoint_celsius'', 2), (''weather_relative_humidity_ratio'', 1/2)]
   \<and> measure_key (measures' ! 4) = ''relativeHumidity''
   \<and> measure_unit (measures' ! 4) = ''percent''
   \<and> (\<exists>u. fst (convert_unit ''percent'' globals_init) = Some u
          \<and> gauge_name (measures' ! 4) u = ''weather_relative_humidity_ratio'')
   \<and> 0 < FORECAST_MISMATCHED_UNIT
        (snd (get_weather example_lib (\<lambda>n. example_now) (Response 200 (Some example_forecast))
          example_location globals_init)) (''relativeHumidity'', JStr ''unit:degC'')"
proof -
  let ?clock = "\<lambda>n::nat. example_now"
  let ?report = "[(''weather_dewpoint_celsius'', 2::real), (''weather_relative_humidity_ratio'', 1/2)]"
  have humidity: "measures' ! 4 = \<lparr>measure_key = ''relativeHumidity'',
      measure_name = ''relative_humidity'', measure_unit = ''percent''\<rparr>"
    by (simp add: measures'_def)
  have index: "(4::nat) < length measures'" by (simp add: measures'_def)
  have probe: "fst (ExpiringCache_get (?clock 0) example_location (weather_cache globals_init)) = None"
    by (simp add: globals_init_def cache_eval)
  have body: "requests_get_json (Response 200 (Some example_forecast)) = Inr example_forecast"
    by simp
  have records: "measure_records example_forecast (measures' ! 4)
      = Inr (series ''unit:degC'' [current (JNum 50)])"
    by (simp add: humidity measure_records_def example_forecast_def)
  have uom: "py_get (series ''unit:degC'' [current (JNum 50)]) ''uom'' = Inr (JStr ''unit:degC'')"
    by (simp add: series_def)
  have differs: "JStr ''unit:degC'' \<noteq> JStr (''unit:'' @ measure_unit (measures' ! 4))"
    by (simp add: humidity)
  have cur: "fetch_current example_lib (?clock (Suc 4)) (series ''unit:degC'' [current (JNum 50)])
      = Inr (JNum 50)"
    by (simp add: fetch_current_def report_end_def example_eval)
  have report: "fst (get_weather example_lib ?clock (Response 200 (Some example_forecast))
      example_location globals_init) = Inr ?report"
    using example_report by blast
  have ratio: "fst (convert_unit ''percent'' globals_init) = Some u \<Longrightarrow>
      gauge_name (measures' ! 4) u = ''weather_relative_humidity_ratio''" for u
    by (auto simp add: convert_unit_fst prom_units_def gauge_name_def humidity)
  have zero: "FORECAST_MISMATCHED_UNIT globals_init (''relativeHumidity'', JStr ''unit:degC'') = 0"
    by (simp add: globals_init_def)
  note t = unit_mismatch_still_converts [OF index probe body records uom differs cur report]
  from t obtain u where u: "fst (convert_unit (measure_unit (measures' ! 4)) globals_init) = Some u"
    by blast
  then have named: "\<exists>u. fst (convert_unit ''percent'' globals_init) = Some u
      \<and> gauge_name (measures' ! 4) u = ''weather_relative_humidity_ratio''"
    using ratio by (auto simp add: humidity)
  from t have counted: "0 < FORECAST_MISMATCHED_UNIT
      (snd (get_weather example_lib ?clock (Response 200 (Some example_forecast))
        example_location globals_init)) (''relativeHumidity'', JStr ''unit:degC'')"
    by (auto simp add: humidity)
  have key: "measure_key (measures' ! 4) = ''relativeHumidity''
      \<and> measure_unit (measures' ! 4) = ''percent''"
    by (simp add: humidity)
  from index probe body records uom differs cur report key named counted
  show ?thesis by simp
qed

subsection \<open>The current value of a series\<close>

text \<open>
  C9. For an entry whose \<^verbatim>\<open>values\<close> is a list of readings, each with a
  \<^verbatim>\<open>validTime\<close> text that parses to an interval and with a \<^verbatim>\<open>value\<close>,
  \<^verbatim>\<open>fetch_current\<close> returns the value of the first reading, in the order of the list,
  whose interval ends strictly after \<open>now\<close>, and \<^verbatim>\<open>None\<close> when the list has no such
  reading (it is empty, or every interval ends at or before \<open>now\<close>).
\<close>

theorem fetch_current_first_unexpired:
  assumes "py_getitem data ''values'' = Inr (JArr reports)"
    and "\<forall>r \<in> set reports. \<exists>s e v. py_getitem r ''validTime'' = Inr (JStr s)
              \<and> pendulum_parse_end lib s = Inr e \<and> py_getitem r ''value'' = Inr v"
  shows "fetch_current lib now data
           = (case find (\<lambda>r. \<exists>e. report_end lib r = Inr e \<and> now < e) reports of
                None \<Rightarrow> Inr JNull
              | Some r \<Rightarrow> py_getitem r ''value'')"
  using fetch_current_loop_find[OF assms(2)] assms(1) by (simp add: fetch_current_def)

theorem fetch_current_first_unexpired_witness:
  "fetch_current example_lib example_now (series ''unit:degC'' [ended (JNum 1), current (JNum 2)])
     = Inr (JNum 2)
   \<and> fetch_current example_lib example_now (series ''unit:degC'' [ended (JNum 1), ended (JNum 2)])
     = Inr JNull
   \<and> fetch_current example_lib example_now (series ''unit:degC'' []) = Inr JNull"
proof -
  have vals: "py_getitem (series ''unit:degC'' reports) ''values'' = Inr (JArr reports)" for reports
    by (simp add: series_def)
  have wf: "\<forall>r \<in> set [ended (JNum 1), current (JNum 2), ended (JNum 2)].
      \<exists>s e v. py_getitem r ''validTime'' = Inr (JStr s)
        \<and> pendulum_parse_end example_lib s = Inr e \<and> py_getitem r ''value'' = Inr v"
    by (simp add: example_eval)
  have ends: "report_end example_lib (ended v) = Inr 1577840400000000
      \<and> report_end example_lib (current v) = Inr 1893459600000000" for v
    by (simp add: example_eval report_end_def)
  have a: "fetch_current example_lib example_now (series ''unit:degC'' [ended (JNum 1), current (JNum 2)])
     = Inr (JNum 2)"
    using wf by (subst fetch_current_first_unexpired [OF vals])
      (simp_all add: ends, simp add: example_eval)
  have b: "fetch_current example_lib example_now (series ''unit:degC'' [ended (JNum 1), ended (JNum 2)])
     = Inr JNull"
    using wf by (subst fetch_current_first_unexpired [OF vals])
      (simp_all add: ends, simp add: example_eval)
  have c: "fetch_current example_lib example_now (series ''unit:degC'' []) = Inr JNull"
    by (subst fetch_current_first_unexpired [OF vals]) simp_all
  from a b c show ?thesis by blast
qed

subsection \<open>The unit table\<close>

text \<open>
  C10. \<^verbatim>\<open>convert_unit\<close> knows \<^verbatim>\<open>percent\<close> as a ratio whose conversion maps 50 to
  0.5, and \<^verbatim>\<open>mm\<close> as meters whose conversion maps 10 to 0.01, and neither call
  touches a counter. For every tag outside the six of the table it returns \<^verbatim>\<open>None\<close>
  and the conversion-failure counter labelled with that tag grows by one, the counters of
  all other tags staying as they were. (Floats are idealised as real numbers.)
\<close>

theorem convert_unit_table:
  "map_option unit_name (fst (convert_unit ''percent'' g)) = Some ''ratio''
   \<and> map_option (\<lambda>u. unit_convert u (JNum 50)) (fst (convert_unit ''percent'' g)) = Some (Inr (JNum 0.5))
   \<and> snd (convert_unit ''percent'' g) = g
   \<and> map_option unit_name (fst (convert_unit ''mm'' g)) = Some ''meters''
   \<and> map_option (\<lambda>u. unit_convert u (JNum 10)) (fst (convert_unit ''mm'' g)) = Some (Inr (JNum 0.01))
   \<and> snd (convert_unit ''mm'' g) = g
   \<and> (tag \<notin> set [''degC'', ''percent'', ''m'', ''degree_(angle)'', ''m_s-1'', ''mm''] \<longrightarrow>
        fst (convert_unit tag g) = None
      \<and> UNIT_CONVERSION_FAILURE (snd (convert_unit tag g)) tag = UNIT_CONVERSION_FAILURE g tag + 1
      \<and> (\<forall>t. t \<noteq> tag \<longrightarrow>
            UNIT_CONVERSION_FAILURE (snd (convert_unit tag g)) t = UNIT_CONVERSION_FAILURE g t))"
  by (simp add: convert_unit_def prom_units_def Let_def counter_inc_def)

theorem convert_unit_table_witness:
  "''unknown_unit'' \<notin> set [''degC'', ''percent'', ''m'', ''degree_(angle)'', ''m_s-1'', ''mm'']
   \<and> fst (convert_unit ''unknown_unit'' globals_init) = None
   \<and> UNIT_CONVERSION_FAILURE (snd (convert_unit ''unknown_unit'' globals_init)) ''unknown_unit'' = 1
   \<and> UNIT_CONVERSION_FAILURE (snd (convert_unit ''unknown_unit'' globals_init)) ''percent'' = 0"
proof -
  have unknown: "''unknown_unit'' \<notin> set [''degC'', ''percent'', ''m'', ''degree_(angle)'', ''m_s-1'', ''mm'']"
    by simp
  have zero: "UNIT_CONVERSION_FAILURE globals_init ''unknown_unit'' = 0
      \<and> UNIT_CONVERSION_FAILURE globals_init ''percent'' = 0"
    by (simp add: globals_init_def)
  show ?thesis
    using unknown zero convert_unit_table [of globals_init "''unknown_unit''"]
    by simp
qed

end
